theory Spec2Isabelle
  imports
    Main
    "HOL-Library.Word"
    "HOL-Library.Sublist"
    "HOL-Library.Char_ord"
    "HOL-Library.List_Lexorder"
begin

unbundle bit_operations_syntax

section \<open>JavaScript values, rejections and the observable effects of a run\<close>

text \<open>
  The extractor of \<^verbatim>\<open>src/extractor.js\<close> builds plain JavaScript data out of the rows a
  PostgreSQL client hands back. An object keeps its properties as an association list in
  insertion order (the order \<^verbatim>\<open>JSON.stringify\<close> prints them in); a row of a query result is
  such an object, keyed by the column aliases of the SELECT list.
\<close>

datatype jsval =
    JUndefined
  | JNull
  | JBool bool
  | JNum int
  | JStr string
  | JArr "jsval list"
  | JObj "(string \<times> jsval) list"

text \<open>
  What an \<^verbatim>\<open>await\<close> can throw: the rejection of \<^verbatim>\<open>client.query\<close> (an error object of the
  driver, of type \<open>'e\<close>), or the \<^verbatim>\<open>TypeError\<close> of reading a property of \<^verbatim>\<open>undefined\<close> or
  \<^verbatim>\<open>null\<close>.
\<close>

datatype 'e js_error = Rejected 'e | TypeError

text \<open>The query texts of the source, one constructor per SQL string literal.\<close>

datatype sql =
    Q_current_database
  | Q_set_search_path
  | Q_schemas
  | Q_tables
  | Q_columns
  | Q_constraints
  | Q_foreign_keys
  | Q_triggers
  | Q_views
  | Q_functions
  | Q_indexes

text \<open>
  The effects a run leaves behind: every command sent over the connection (with its
  parameters and, when the driver rejected it, the error), and every line written to the
  console (\<^verbatim>\<open>console.log\<close>, \<^verbatim>\<open>console.warn\<close>, \<^verbatim>\<open>console.error\<close>; the value interpolated
  into the message stands for the line).
\<close>

datatype 'e event =
    Sent sql "jsval list" "'e option"
  | ConsoleLog jsval
  | ConsoleWarn "'e js_error"
  | ConsoleError "'e js_error"

record ('s, 'e) world =
  session :: 's
  events :: "'e event list"

text \<open>
  A client is whatever answers \<^verbatim>\<open>client.query(text, params)\<close>: from the state of the
  connection it gives the rows or a rejection, and the next state of the connection.
\<close>

type_synonym ('s, 'e) client = "sql \<Rightarrow> jsval list \<Rightarrow> 's \<Rightarrow> ('e + jsval list) \<times> 's"

type_synonym ('a, 's, 'e) io = "('s, 'e) world \<Rightarrow> ('e js_error + 'a) \<times> ('s, 'e) world"

definition io_return :: "'a \<Rightarrow> ('a, 's, 'e) io" where
  "io_return x w = (Inr x, w)"

definition io_throw :: "'e js_error \<Rightarrow> ('a, 's, 'e) io" where
  "io_throw err w = (Inl err, w)"

definition io_bind :: "('a, 's, 'e) io \<Rightarrow> ('a \<Rightarrow> ('b, 's, 'e) io) \<Rightarrow> ('b, 's, 'e) io" where
  "io_bind m f w =
     (case m w of
        (Inl err, w') \<Rightarrow> (Inl err, w')
      | (Inr x, w') \<Rightarrow> f x w')"

definition io_lift :: "'e js_error + 'a \<Rightarrow> ('a, 's, 'e) io" where
  "io_lift r w = (r, w)"

text \<open>\<^verbatim>\<open>try { m } catch (err) { h(err) }\<close>\<close>

definition try_catch :: "('a, 's, 'e) io \<Rightarrow> ('e js_error \<Rightarrow> ('a, 's, 'e) io) \<Rightarrow> ('a, 's, 'e) io" where
  "try_catch m h w =
     (case m w of
        (Inl err, w') \<Rightarrow> h err w'
      | (Inr x, w') \<Rightarrow> (Inr x, w'))"

definition emit :: "'e event \<Rightarrow> (unit, 's, 'e) io" where
  "emit ev w = (Inr (), w\<lparr>events := events w @ [ev]\<rparr>)"

text \<open>\<^verbatim>\<open>(await client.query(text, params)).rows\<close>\<close>

definition query :: "('s, 'e) client \<Rightarrow> sql \<Rightarrow> jsval list \<Rightarrow> (jsval list, 's, 'e) io" where
  "query c q ps w =
     (case c q ps (session w) of
        (Inl e, s') \<Rightarrow>
          (Inl (Rejected e), \<lparr>session = s', events = events w @ [Sent q ps (Some e)]\<rparr>)
      | (Inr rows, s') \<Rightarrow>
          (Inr rows, \<lparr>session = s', events = events w @ [Sent q ps None]\<rparr>))"

text \<open>
  \<^verbatim>\<open>v.k\<close>: a \<^verbatim>\<open>TypeError\<close> on \<^verbatim>\<open>undefined\<close> and \<^verbatim>\<open>null\<close>, the property's value on an object
  that has it, \<^verbatim>\<open>undefined\<close> otherwise (none of the keys the source reads is a property of
  a boolean, a number, a string or an array).
\<close>

definition nullish :: "jsval \<Rightarrow> bool" where
  "nullish v = (v = JUndefined \<or> v = JNull)"

definition prop_of :: "jsval \<Rightarrow> string \<Rightarrow> jsval" where
  "prop_of v k =
     (case v of
        JObj kvs \<Rightarrow> (case map_of kvs k of None \<Rightarrow> JUndefined | Some x \<Rightarrow> x)
      | _ \<Rightarrow> JUndefined)"

definition get_prop :: "jsval \<Rightarrow> string \<Rightarrow> 'e js_error + jsval" where
  "get_prop v k = (if nullish v then Inl TypeError else Inr (prop_of v k))"

text \<open>\<^verbatim>\<open>rows[0]\<close>: \<^verbatim>\<open>undefined\<close> on an empty array.\<close>

definition first_row :: "jsval list \<Rightarrow> jsval" where
  "first_row rows = (case rows of [] \<Rightarrow> JUndefined | r # _ \<Rightarrow> r)"

text \<open>
  \<^verbatim>\<open>const out = []; for (const row of rows) { out.push(await body(row)); }\<close>:
  the accumulator is the array pushed to so far.
\<close>

fun for_rows :: "(jsval \<Rightarrow> (jsval, 's, 'e) io) \<Rightarrow> jsval list \<Rightarrow> jsval list \<Rightarrow> (jsval list, 's, 'e) io" where
  "for_rows body [] out = io_return out"
| "for_rows body (row # rows) out = io_bind (body row) (\<lambda>v. for_rows body rows (out @ [v]))"

text \<open>\<^verbatim>\<open>rows.map(f)\<close> for an \<open>f\<close> that reads properties of the row, and so may throw.\<close>

fun map_rows :: "(jsval \<Rightarrow> 'e js_error + jsval) \<Rightarrow> jsval list \<Rightarrow> 'e js_error + jsval list" where
  "map_rows f [] = Inr []"
| "map_rows f (row # rows) =
     (case f row of
        Inl err \<Rightarrow> Inl err
      | Inr v \<Rightarrow> (case map_rows f rows of Inl err \<Rightarrow> Inl err | Inr vs \<Rightarrow> Inr (v # vs)))"

section \<open>The traversal of \<^verbatim>\<open>src/extractor.js\<close>\<close>

text \<open>
  The functions below are the ones \<^verbatim>\<open>extractStructure\<close> reaches. (\<^verbatim>\<open>getDatabases\<close> is
  defined in the source and called nowhere.)
\<close>

text \<open>The five accessors of a table return \<^verbatim>\<open>res.rows\<close> as the driver built them.\<close>

definition getColumns :: "('s, 'e) client \<Rightarrow> jsval \<Rightarrow> jsval \<Rightarrow> (jsval, 's, 'e) io" where
  "getColumns c schemaName tableName =
     io_bind (query c Q_columns [schemaName, tableName]) (\<lambda>rows. io_return (JArr rows))"

definition getConstraints :: "('s, 'e) client \<Rightarrow> jsval \<Rightarrow> jsval \<Rightarrow> (jsval, 's, 'e) io" where
  "getConstraints c schemaName tableName =
     io_bind (query c Q_constraints [schemaName, tableName]) (\<lambda>rows. io_return (JArr rows))"

definition getForeignKeys :: "('s, 'e) client \<Rightarrow> jsval \<Rightarrow> jsval \<Rightarrow> (jsval, 's, 'e) io" where
  "getForeignKeys c schemaName tableName =
     io_bind (query c Q_foreign_keys [schemaName, tableName]) (\<lambda>rows. io_return (JArr rows))"

definition getTriggers :: "('s, 'e) client \<Rightarrow> jsval \<Rightarrow> jsval \<Rightarrow> (jsval, 's, 'e) io" where
  "getTriggers c schemaName tableName =
     io_bind (query c Q_triggers [schemaName, tableName]) (\<lambda>rows. io_return (JArr rows))"

definition getIndexes :: "('s, 'e) client \<Rightarrow> jsval \<Rightarrow> jsval \<Rightarrow> (jsval, 's, 'e) io" where
  "getIndexes c schemaName tableName =
     io_bind (query c Q_indexes [schemaName, tableName]) (\<lambda>rows. io_return (JArr rows))"

definition view_object :: "jsval \<Rightarrow> jsval" where
  "view_object row =
     JObj
       [(''name'', prop_of row ''view_name''),
        (''definition'', prop_of row ''view_definition'')]"

definition view_entry :: "jsval \<Rightarrow> 'e js_error + jsval" where
  "view_entry row = (if nullish row then Inl TypeError else Inr (view_object row))"

definition getViews :: "('s, 'e) client \<Rightarrow> jsval \<Rightarrow> (jsval, 's, 'e) io" where
  "getViews c schemaName =
     io_bind (query c Q_views [schemaName]) (\<lambda>rows.
     io_bind (io_lift (map_rows view_entry rows)) (\<lambda>views.
     io_return (JArr views)))"

definition function_object :: "jsval \<Rightarrow> jsval" where
  "function_object row =
     JObj
       [(''name'', prop_of row ''function_name''),
        (''arguments'', prop_of row ''function_arguments''),
        (''return_type'', prop_of row ''return_type''),
        (''body'', prop_of row ''function_body''),
        (''type'', prop_of row ''function_type''),
        (''volatility'', prop_of row ''volatility''),
        (''is_strict'', prop_of row ''is_strict''),
        (''returns_set'', prop_of row ''returns_set'')]"

definition function_entry :: "jsval \<Rightarrow> 'e js_error + jsval" where
  "function_entry row = (if nullish row then Inl TypeError else Inr (function_object row))"

definition getFunctions :: "('s, 'e) client \<Rightarrow> jsval \<Rightarrow> (jsval, 's, 'e) io" where
  "getFunctions c schemaName =
     io_bind (query c Q_functions [schemaName]) (\<lambda>rows.
     io_bind (io_lift (map_rows function_entry rows)) (\<lambda>functions.
     io_return (JArr functions)))"

definition table_entry :: "('s, 'e) client \<Rightarrow> jsval \<Rightarrow> jsval \<Rightarrow> (jsval, 's, 'e) io" where
  "table_entry c schemaName row =
     io_bind (io_lift (get_prop row ''table_name'')) (\<lambda>tableName.
     io_bind (getColumns c schemaName tableName) (\<lambda>columns.
     io_bind (getConstraints c schemaName tableName) (\<lambda>constraints.
     io_bind (getForeignKeys c schemaName tableName) (\<lambda>foreignKeys.
     io_bind (getTriggers c schemaName tableName) (\<lambda>triggers.
     io_bind (getIndexes c schemaName tableName) (\<lambda>indexes.
     io_return (JObj
       [(''name'', tableName),
        (''columns'', columns),
        (''constraints'', constraints),
        (''foreignKeys'', foreignKeys),
        (''triggers'', triggers),
        (''indexes'', indexes)])))))))"

definition getTables :: "('s, 'e) client \<Rightarrow> jsval \<Rightarrow> (jsval, 's, 'e) io" where
  "getTables c schemaName =
     io_bind (query c Q_tables [schemaName]) (\<lambda>rows.
     io_bind (for_rows (table_entry c schemaName) rows []) (\<lambda>tables.
     io_return (JArr tables)))"

definition schema_entry :: "('s, 'e) client \<Rightarrow> jsval \<Rightarrow> (jsval, 's, 'e) io" where
  "schema_entry c row =
     io_bind (io_lift (get_prop row ''schema_name'')) (\<lambda>schemaName.
     io_bind (getTables c schemaName) (\<lambda>tables.
     io_bind (getViews c schemaName) (\<lambda>views.
     io_bind (getFunctions c schemaName) (\<lambda>functions.
     io_return (JObj
       [(''name'', schemaName),
        (''tables'', tables),
        (''views'', views),
        (''functions'', functions)])))))"

text \<open>
  The first command of \<^verbatim>\<open>getSchemas\<close> sits in a \<^verbatim>\<open>try\<close> of its own, whose handler only
  warns:
  \<^verbatim>\<open>try { await client.query(`SET search_path TO "$user", public;`); }
  catch (err) { console.warn(...); }\<close>
\<close>

definition set_search_path :: "('s, 'e) client \<Rightarrow> (unit, 's, 'e) io" where
  "set_search_path c =
     try_catch
       (io_bind (query c Q_set_search_path []) (\<lambda>_. io_return ()))
       (\<lambda>err. emit (ConsoleWarn err))"

text \<open>The \<^verbatim>\<open>database\<close> argument of \<^verbatim>\<open>getSchemas\<close> is not used.\<close>

definition getSchemas :: "('s, 'e) client \<Rightarrow> jsval \<Rightarrow> (jsval, 's, 'e) io" where
  "getSchemas c database =
     io_bind (set_search_path c) (\<lambda>_.
     io_bind (query c Q_schemas []) (\<lambda>rows.
     io_bind (for_rows (schema_entry c) rows []) (\<lambda>schemas.
     io_return (JArr schemas))))"

definition extractStructure :: "('s, 'e) client \<Rightarrow> (jsval, 's, 'e) io" where
  "extractStructure c =
     try_catch
       (io_bind (query c Q_current_database []) (\<lambda>rows.
        io_bind (io_lift (get_prop (first_row rows) ''db_name'')) (\<lambda>currentDb.
        io_bind (emit (ConsoleLog currentDb)) (\<lambda>_.
        io_bind (getSchemas c currentDb) (\<lambda>schemas.
        io_return (JObj
          [(''databases'',
            JArr [JObj [(''name'', currentDb), (''schemas'', schemas)]])]))))))
       (\<lambda>error. io_bind (emit (ConsoleError error)) (\<lambda>_. io_throw error))"

section \<open>The catalog the queries read\<close>

text \<open>
  The SQL of the source is part of the program: each query is a function from the
  relations it names to the rows the driver returns. The relations are lists of rows in
  the order a scan yields them; only the columns the queries mention are kept. Names
  are compared bytewise (the catalog type \<^verbatim>\<open>name\<close> has collation C), which is the
  lexicographic order of \<^typ>\<open>string\<close>. An ORDER BY is \<^const>\<open>sort_key\<close>, which keeps
  rows with equal keys in the order of the join; SQL leaves that order open, and nothing
  below depends on it.
\<close>

type_synonym oid = nat

record pg_namespace_row =
  nsp_oid :: oid
  nspname :: string

record pg_class_row =
  rel_oid :: oid
  relname :: string
  relnamespace :: oid

record pg_attribute_row =
  attrelid :: oid
  attnum :: int
  attname :: string

text \<open>\<open>conkey\<close> and \<open>confkey\<close> are arrays of attribute numbers, in the declared key order.\<close>

record pg_constraint_row =
  con_oid :: oid
  conname :: string
  contype :: char
  conrelid :: oid
  confrelid :: oid
  conkey :: "int list"
  confkey :: "int list"
  confupdtype :: char
  confdeltype :: char

text \<open>\<open>tgtype\<close> is an \<^verbatim>\<open>int2\<close>.\<close>

record pg_trigger_row =
  trg_oid :: oid
  tgname :: string
  tgenabled :: char
  tgtype :: "16 word"
  tgrelid :: oid
  tgfoid :: oid
  tgisinternal :: bool

record pg_proc_row =
  proc_oid :: oid
  proname :: string
  pronamespace :: oid
  prorettype :: oid
  prolang :: oid
  prosrc :: string
  provolatile :: char
  proisstrict :: bool
  proretset :: bool
  prokind :: char

record pg_type_row =
  typ_oid :: oid
  typname :: string

record pg_language_row =
  lang_oid :: oid
  lanname :: string

record pg_index_row =
  indexrelid :: oid
  indrelid :: oid
  indkey :: "int list"
  indisunique :: bool
  indisprimary :: bool
  indisvalid :: bool

record pg_indexes_row =
  schemaname :: string
  tablename :: string
  indexname :: string
  tablespace :: "string option"
  indexdef :: string

record tables_row =
  tables_table_schema :: string
  tables_table_name :: string
  table_type :: string

record columns_row =
  columns_table_schema :: string
  columns_table_name :: string
  ordinal_position :: int
  column_name :: string
  data_type :: string
  is_nullable :: string
  column_default :: "string option"
  character_maximum_length :: "int option"
  numeric_precision :: "int option"
  numeric_scale :: "int option"

record views_row =
  views_table_schema :: string
  views_table_name :: string
  view_definition :: "string option"

text \<open>
  The session state a command can see is the search path. The three deparsing functions
  qualify the names they print according to it, so the catalog gives their text per
  search path; \<open>None\<close> is SQL's NULL.
\<close>

type_synonym search_path = "string list"

record catalog =
  current_database :: string
  pg_namespace :: "pg_namespace_row list"
  pg_class :: "pg_class_row list"
  pg_attribute :: "pg_attribute_row list"
  pg_constraint :: "pg_constraint_row list"
  pg_trigger :: "pg_trigger_row list"
  pg_proc :: "pg_proc_row list"
  pg_type :: "pg_type_row list"
  pg_language :: "pg_language_row list"
  pg_index :: "pg_index_row list"
  pg_indexes :: "pg_indexes_row list"
  information_schema_tables :: "tables_row list"
  information_schema_columns :: "columns_row list"
  information_schema_views :: "views_row list"
  pg_get_constraintdef :: "search_path \<Rightarrow> oid \<Rightarrow> string option"
  pg_get_triggerdef :: "search_path \<Rightarrow> oid \<Rightarrow> string option"
  pg_get_function_arguments :: "search_path \<Rightarrow> oid \<Rightarrow> string option"

section \<open>The SQL of the source\<close>

text \<open>
  \<^verbatim>\<open>s LIKE p\<close>: \<^verbatim>\<open>%\<close> matches any run of characters, \<^verbatim>\<open>_\<close> any one character, a backslash
  takes the next pattern character literally. (PostgreSQL raises an error on a pattern
  that ends in a lone backslash; neither pattern of the source has a backslash.)
\<close>

fun any_suffix :: "(string \<Rightarrow> bool) \<Rightarrow> string \<Rightarrow> bool" where
  "any_suffix P [] = P []"
| "any_suffix P (c # s) = (P (c # s) \<or> any_suffix P s)"

fun like_pattern :: "string \<Rightarrow> string \<Rightarrow> bool" where
  "like_pattern [] s = (s = [])"
| "like_pattern (c # p) s =
     (if c = CHR ''%'' then any_suffix (like_pattern p) s
      else if c = CHR ''_'' then (case s of [] \<Rightarrow> False | _ # s' \<Rightarrow> like_pattern p s')
      else if c = CHR 0x5C then
        (case p of
           [] \<Rightarrow> False
         | d # p' \<Rightarrow> (case s of [] \<Rightarrow> False | x # s' \<Rightarrow> x = d \<and> like_pattern p' s'))
      else (case s of [] \<Rightarrow> False | x # s' \<Rightarrow> x = c \<and> like_pattern p s'))"

definition sql_like :: "string \<Rightarrow> string \<Rightarrow> bool" where
  "sql_like s p = like_pattern p s"

definition js_text :: "string option \<Rightarrow> jsval" where
  "js_text t = (case t of None \<Rightarrow> JNull | Some s \<Rightarrow> JStr s)"

definition js_int :: "int option \<Rightarrow> jsval" where
  "js_int n = (case n of None \<Rightarrow> JNull | Some i \<Rightarrow> JNum i)"

text \<open>\<^verbatim>\<open>SELECT current_database() as db_name\<close>\<close>

definition sql_current_database :: "catalog \<Rightarrow> jsval list" where
  "sql_current_database cat = [JObj [(''db_name'', JStr (current_database cat))]]"

text \<open>
  \<^verbatim>\<open>SELECT nspname AS schema_name FROM pg_namespace
  WHERE nspname NOT LIKE 'pg_%' AND nspname != 'information_schema' ORDER BY nspname\<close>
\<close>

definition sql_schemas :: "catalog \<Rightarrow> jsval list" where
  "sql_schemas cat =
     map (\<lambda>n. JObj [(''schema_name'', JStr (nspname n))])
       (sort_key nspname
         (filter (\<lambda>n. \<not> sql_like (nspname n) ''pg_%'' \<and> nspname n \<noteq> ''information_schema'')
           (pg_namespace cat)))"

text \<open>
  \<^verbatim>\<open>SELECT table_name FROM information_schema.tables
  WHERE table_schema = $1 AND table_type = 'BASE TABLE' ORDER BY table_name\<close>.
  A parameter is a text or NULL; a comparison with NULL selects no row.
\<close>

definition sql_tables :: "catalog \<Rightarrow> string option \<Rightarrow> jsval list" where
  "sql_tables cat p1 =
     map (\<lambda>t. JObj [(''table_name'', JStr (tables_table_name t))])
       (sort_key tables_table_name
         (filter (\<lambda>t. Some (tables_table_schema t) = p1 \<and> table_type t = ''BASE TABLE'')
           (information_schema_tables cat)))"

text \<open>
  \<^verbatim>\<open>SELECT column_name, data_type, is_nullable, column_default, character_maximum_length,
  numeric_precision, numeric_scale FROM information_schema.columns
  WHERE table_schema = $1 AND table_name = $2 ORDER BY ordinal_position\<close>
\<close>

definition column_row :: "columns_row \<Rightarrow> jsval" where
  "column_row c =
     JObj
       [(''column_name'', JStr (column_name c)),
        (''data_type'', JStr (data_type c)),
        (''is_nullable'', JStr (is_nullable c)),
        (''column_default'', js_text (column_default c)),
        (''character_maximum_length'', js_int (character_maximum_length c)),
        (''numeric_precision'', js_int (numeric_precision c)),
        (''numeric_scale'', js_int (numeric_scale c))]"

definition columns_of :: "catalog \<Rightarrow> string option \<Rightarrow> string option \<Rightarrow> columns_row list" where
  "columns_of cat p1 p2 =
     sort_key ordinal_position
       (filter (\<lambda>c. Some (columns_table_schema c) = p1 \<and> Some (columns_table_name c) = p2)
         (information_schema_columns cat))"

definition sql_columns :: "catalog \<Rightarrow> string option \<Rightarrow> string option \<Rightarrow> jsval list" where
  "sql_columns cat p1 p2 = map column_row (columns_of cat p1 p2)"

text \<open>
  \<^verbatim>\<open>SELECT con.conname AS constraint_name, con.contype AS constraint_type,
  CASE WHEN con.contype = 'p' THEN 'PRIMARY KEY' WHEN con.contype = 'u' THEN 'UNIQUE'
  WHEN con.contype = 'c' THEN 'CHECK' WHEN con.contype = 'f' THEN 'FOREIGN KEY'
  ELSE con.contype::text END AS constraint_type_desc,
  pg_get_constraintdef(con.oid) AS definition
  FROM pg_constraint con JOIN pg_class rel ON rel.oid = con.conrelid
  JOIN pg_namespace nsp ON nsp.oid = rel.relnamespace
  WHERE nsp.nspname = $1 AND rel.relname = $2 ORDER BY con.conname\<close>
\<close>

definition constraint_type_desc :: "char \<Rightarrow> string" where
  "constraint_type_desc t =
     (if t = CHR ''p'' then ''PRIMARY KEY''
      else if t = CHR ''u'' then ''UNIQUE''
      else if t = CHR ''c'' then ''CHECK''
      else if t = CHR ''f'' then ''FOREIGN KEY''
      else [t])"

definition constraint_row :: "catalog \<Rightarrow> search_path \<Rightarrow> pg_constraint_row \<Rightarrow> jsval" where
  "constraint_row cat sp con =
     JObj
       [(''constraint_name'', JStr (conname con)),
        (''constraint_type'', JStr [contype con]),
        (''constraint_type_desc'', JStr (constraint_type_desc (contype con))),
        (''definition'', js_text (pg_get_constraintdef cat sp (con_oid con)))]"

definition constraints_of :: "catalog \<Rightarrow> string option \<Rightarrow> string option \<Rightarrow> pg_constraint_row list" where
  "constraints_of cat p1 p2 =
     sort_key conname
       [con.
          con \<leftarrow> pg_constraint cat,
          rel \<leftarrow> pg_class cat, rel_oid rel = conrelid con,
          nsp \<leftarrow> pg_namespace cat, nsp_oid nsp = relnamespace rel,
          Some (nspname nsp) = p1 \<and> Some (relname rel) = p2]"

definition sql_constraints :: "catalog \<Rightarrow> search_path \<Rightarrow> string option \<Rightarrow> string option \<Rightarrow> jsval list" where
  "sql_constraints cat sp p1 p2 = map (constraint_row cat sp) (constraints_of cat p1 p2)"

text \<open>
  \<^verbatim>\<open>ARRAY(SELECT attname FROM pg_attribute WHERE attrelid = r AND attnum = ANY(key))\<close>:
  the subquery has no ORDER BY, so the names come in the order the scan of
  \<^verbatim>\<open>pg_attribute\<close> yields its rows, whatever the order of \<open>key\<close>.
\<close>

definition key_columns :: "catalog \<Rightarrow> oid \<Rightarrow> int list \<Rightarrow> string list" where
  "key_columns cat r key =
     map attname (filter (\<lambda>a. attrelid a = r \<and> attnum a \<in> set key) (pg_attribute cat))"

text \<open>
  \<^verbatim>\<open>CASE code WHEN 'a' THEN 'NO ACTION' WHEN 'r' THEN 'RESTRICT' WHEN 'c' THEN 'CASCADE'
  WHEN 'n' THEN 'SET NULL' WHEN 'd' THEN 'SET DEFAULT' ELSE NULL END\<close>
\<close>

definition fk_rule :: "char \<Rightarrow> string option" where
  "fk_rule a =
     (if a = CHR ''a'' then Some ''NO ACTION''
      else if a = CHR ''r'' then Some ''RESTRICT''
      else if a = CHR ''c'' then Some ''CASCADE''
      else if a = CHR ''n'' then Some ''SET NULL''
      else if a = CHR ''d'' then Some ''SET DEFAULT''
      else None)"

text \<open>
  \<^verbatim>\<open>SELECT con.conname AS constraint_name, ns1.nspname AS source_schema,
  cl1.relname AS source_table, ARRAY(...) AS source_columns, ns2.nspname AS target_schema,
  cl2.relname AS target_table, ARRAY(...) AS target_columns, CASE con.confupdtype ... END
  AS update_rule, CASE con.confdeltype ... END AS delete_rule
  FROM pg_constraint con JOIN pg_class cl1 ON con.conrelid = cl1.oid
  JOIN pg_namespace ns1 ON cl1.relnamespace = ns1.oid
  JOIN pg_class cl2 ON con.confrelid = cl2.oid
  JOIN pg_namespace ns2 ON cl2.relnamespace = ns2.oid
  WHERE ns1.nspname = $1 AND cl1.relname = $2 AND con.contype = 'f' ORDER BY con.conname\<close>
\<close>

type_synonym fk_join =
  "pg_constraint_row \<times> pg_class_row \<times> pg_namespace_row \<times> pg_class_row \<times> pg_namespace_row"

definition foreign_key_row :: "catalog \<Rightarrow> fk_join \<Rightarrow> jsval" where
  "foreign_key_row cat j =
     (case j of (con, cl1, ns1, cl2, ns2) \<Rightarrow>
        JObj
          [(''constraint_name'', JStr (conname con)),
           (''source_schema'', JStr (nspname ns1)),
           (''source_table'', JStr (relname cl1)),
           (''source_columns'', JArr (map JStr (key_columns cat (conrelid con) (conkey con)))),
           (''target_schema'', JStr (nspname ns2)),
           (''target_table'', JStr (relname cl2)),
           (''target_columns'', JArr (map JStr (key_columns cat (confrelid con) (confkey con)))),
           (''update_rule'', js_text (fk_rule (confupdtype con))),
           (''delete_rule'', js_text (fk_rule (confdeltype con)))])"

definition foreign_keys_of :: "catalog \<Rightarrow> string option \<Rightarrow> string option \<Rightarrow> fk_join list" where
  "foreign_keys_of cat p1 p2 =
     sort_key (\<lambda>j. conname (fst j))
       [(con, cl1, ns1, cl2, ns2).
          con \<leftarrow> pg_constraint cat,
          cl1 \<leftarrow> pg_class cat, conrelid con = rel_oid cl1,
          ns1 \<leftarrow> pg_namespace cat, relnamespace cl1 = nsp_oid ns1,
          cl2 \<leftarrow> pg_class cat, confrelid con = rel_oid cl2,
          ns2 \<leftarrow> pg_namespace cat, relnamespace cl2 = nsp_oid ns2,
          Some (nspname ns1) = p1 \<and> Some (relname cl1) = p2 \<and> contype con = CHR ''f'']"

definition sql_foreign_keys :: "catalog \<Rightarrow> string option \<Rightarrow> string option \<Rightarrow> jsval list" where
  "sql_foreign_keys cat p1 p2 = map (foreign_key_row cat) (foreign_keys_of cat p1 p2)"

text \<open>
  The trigger query decodes \<open>tgtype\<close> with \<^verbatim>\<open>(trg.tgtype & (1<<k)) > 0\<close>: the \<^verbatim>\<open>int2\<close> is
  widened to the \<^verbatim>\<open>integer\<close> of the shifted literal (sign extension, \<^const>\<open>sint\<close>) and the
  conjunction is compared with zero.
\<close>

definition tgtype_has :: "16 word \<Rightarrow> nat \<Rightarrow> bool" where
  "tgtype_has t k = ((sint t AND push_bit k (1::int)) > 0)"

definition trigger_level :: "16 word \<Rightarrow> string" where
  "trigger_level t = (if tgtype_has t 0 then ''ROW'' else ''STATEMENT'')"

definition trigger_timing :: "16 word \<Rightarrow> string" where
  "trigger_timing t =
     (if tgtype_has t 1 then ''BEFORE''
      else if tgtype_has t 6 then ''INSTEAD OF''
      else ''AFTER'')"

text \<open>
  \<^verbatim>\<open>SELECT trg.tgname AS trigger_name, trg.tgenabled AS enabled, CASE ... END AS level,
  CASE ... END AS timing, CASE WHEN (trg.tgtype & (1<<2)) > 0 THEN true ELSE false END
  AS insert_event, ... (1<<3) ... AS delete_event, ... (1<<4) ... AS update_event,
  ... (1<<5) ... AS truncate_event, p.proname AS function_name,
  ns.nspname AS function_schema, pg_get_triggerdef(trg.oid) AS definition
  FROM pg_trigger trg JOIN pg_class tbl ON trg.tgrelid = tbl.oid
  JOIN pg_proc p ON trg.tgfoid = p.oid JOIN pg_namespace ns ON p.pronamespace = ns.oid
  JOIN pg_namespace nsp ON tbl.relnamespace = nsp.oid
  WHERE NOT trg.tgisinternal AND nsp.nspname = $1 AND tbl.relname = $2
  ORDER BY trigger_name\<close>
\<close>

type_synonym trigger_join = "pg_trigger_row \<times> pg_proc_row \<times> pg_namespace_row"

definition trigger_row :: "catalog \<Rightarrow> search_path \<Rightarrow> trigger_join \<Rightarrow> jsval" where
  "trigger_row cat sp j =
     (case j of (trg, p, ns) \<Rightarrow>
        JObj
          [(''trigger_name'', JStr (tgname trg)),
           (''enabled'', JStr [tgenabled trg]),
           (''level'', JStr (trigger_level (tgtype trg))),
           (''timing'', JStr (trigger_timing (tgtype trg))),
           (''insert_event'', JBool (tgtype_has (tgtype trg) 2)),
           (''delete_event'', JBool (tgtype_has (tgtype trg) 3)),
           (''update_event'', JBool (tgtype_has (tgtype trg) 4)),
           (''truncate_event'', JBool (tgtype_has (tgtype trg) 5)),
           (''function_name'', JStr (proname p)),
           (''function_schema'', JStr (nspname ns)),
           (''definition'', js_text (pg_get_triggerdef cat sp (trg_oid trg)))])"

definition triggers_of :: "catalog \<Rightarrow> string option \<Rightarrow> string option \<Rightarrow> trigger_join list" where
  "triggers_of cat p1 p2 =
     sort_key (\<lambda>j. tgname (fst j))
       [(trg, p, ns).
          trg \<leftarrow> pg_trigger cat,
          tbl \<leftarrow> pg_class cat, tgrelid trg = rel_oid tbl,
          p \<leftarrow> pg_proc cat, tgfoid trg = proc_oid p,
          ns \<leftarrow> pg_namespace cat, pronamespace p = nsp_oid ns,
          nsp \<leftarrow> pg_namespace cat, relnamespace tbl = nsp_oid nsp,
          \<not> tgisinternal trg \<and> Some (nspname nsp) = p1 \<and> Some (relname tbl) = p2]"

definition sql_triggers :: "catalog \<Rightarrow> search_path \<Rightarrow> string option \<Rightarrow> string option \<Rightarrow> jsval list" where
  "sql_triggers cat sp p1 p2 = map (trigger_row cat sp) (triggers_of cat p1 p2)"

text \<open>
  \<^verbatim>\<open>SELECT table_name AS view_name, view_definition FROM information_schema.views
  WHERE table_schema = $1 ORDER BY table_name\<close>
\<close>

definition sql_views :: "catalog \<Rightarrow> string option \<Rightarrow> jsval list" where
  "sql_views cat p1 =
     map (\<lambda>v. JObj
            [(''view_name'', JStr (views_table_name v)),
             (''view_definition'', js_text (view_definition v))])
       (sort_key views_table_name
         (filter (\<lambda>v. Some (views_table_schema v) = p1) (information_schema_views cat)))"

text \<open>
  \<^verbatim>\<open>SELECT p.proname AS function_name, pg_get_function_arguments(p.oid) AS
  function_arguments, t.typname AS return_type, p.prosrc AS function_body,
  p.provolatile AS volatility, p.proisstrict AS is_strict, p.proretset AS returns_set,
  CASE WHEN p.prokind = 'f' THEN 'FUNCTION' WHEN p.prokind = 'p' THEN 'PROCEDURE'
  WHEN p.prokind = 'a' THEN 'AGGREGATE' WHEN p.prokind = 'w' THEN 'WINDOW'
  ELSE p.prokind::text END AS function_type
  FROM pg_proc p JOIN pg_namespace n ON p.pronamespace = n.oid
  JOIN pg_type t ON p.prorettype = t.oid LEFT JOIN pg_language l ON p.prolang = l.oid
  WHERE n.nspname = $1 AND l.lanname NOT IN ('internal', 'c') ORDER BY function_name\<close>.
  The left join keeps a function without a language row, with NULL for \<open>l\<close>; the
  \<^verbatim>\<open>NOT IN\<close> on that NULL is NULL, and the WHERE drops the row.
\<close>

definition left_join :: "('b \<Rightarrow> bool) \<Rightarrow> 'b list \<Rightarrow> 'b option list" where
  "left_join on bs = (case filter on bs of [] \<Rightarrow> [None] | b # bs' \<Rightarrow> map Some (b # bs'))"

definition lanname_not_in :: "pg_language_row option \<Rightarrow> bool" where
  "lanname_not_in l =
     (case l of
        None \<Rightarrow> False
      | Some r \<Rightarrow> lanname r \<noteq> ''internal'' \<and> lanname r \<noteq> ''c'')"

definition function_type :: "char \<Rightarrow> string" where
  "function_type k =
     (if k = CHR ''f'' then ''FUNCTION''
      else if k = CHR ''p'' then ''PROCEDURE''
      else if k = CHR ''a'' then ''AGGREGATE''
      else if k = CHR ''w'' then ''WINDOW''
      else [k])"

type_synonym function_join = "pg_proc_row \<times> pg_type_row"

definition function_row :: "catalog \<Rightarrow> search_path \<Rightarrow> function_join \<Rightarrow> jsval" where
  "function_row cat sp j =
     (case j of (p, t) \<Rightarrow>
        JObj
          [(''function_name'', JStr (proname p)),
           (''function_arguments'', js_text (pg_get_function_arguments cat sp (proc_oid p))),
           (''return_type'', JStr (typname t)),
           (''function_body'', JStr (prosrc p)),
           (''volatility'', JStr [provolatile p]),
           (''is_strict'', JBool (proisstrict p)),
           (''returns_set'', JBool (proretset p)),
           (''function_type'', JStr (function_type (prokind p)))])"

definition functions_of :: "catalog \<Rightarrow> string option \<Rightarrow> function_join list" where
  "functions_of cat p1 =
     sort_key (\<lambda>j. proname (fst j))
       [(p, t).
          p \<leftarrow> pg_proc cat,
          n \<leftarrow> pg_namespace cat, pronamespace p = nsp_oid n,
          t \<leftarrow> pg_type cat, prorettype p = typ_oid t,
          l \<leftarrow> left_join (\<lambda>l. prolang p = lang_oid l) (pg_language cat),
          Some (nspname n) = p1 \<and> lanname_not_in l]"

definition sql_functions :: "catalog \<Rightarrow> search_path \<Rightarrow> string option \<Rightarrow> jsval list" where
  "sql_functions cat sp p1 = map (function_row cat sp) (functions_of cat p1)"

text \<open>
  The index query. Its \<open>column_names\<close> is a scalar subquery,
  \<^verbatim>\<open>SELECT array_agg(a.attname ORDER BY array_position(ix.indkey, a.attnum))
  FROM pg_index ix JOIN pg_class ci ON ci.oid = ix.indexrelid
  JOIN pg_class ct ON ct.oid = ix.indrelid
  JOIN pg_attribute a ON a.attrelid = ct.oid AND a.attnum = ANY(ix.indkey)
  JOIN pg_namespace n ON n.oid = ct.relnamespace
  WHERE ci.relname = i.indexname AND n.nspname = i.schemaname AND ct.relname = i.tablename\<close>,
  which orders the names by the position of their attribute in the index key; an
  aggregate over no row is NULL.
\<close>

text \<open>
  \<^verbatim>\<open>array_position(key, x)\<close>, used as a sort key only: the index of the first \<open>x\<close> in
  \<open>key\<close>, and the length of \<open>key\<close> when there is none (NULL sorts last).
\<close>

fun array_position :: "int list \<Rightarrow> int \<Rightarrow> nat" where
  "array_position [] x = 0"
| "array_position (y # ys) x = (if y = x then 0 else Suc (array_position ys x))"

definition column_names :: "catalog \<Rightarrow> pg_indexes_row \<Rightarrow> jsval" where
  "column_names cat i =
     (case sort_key (\<lambda>j. array_position (indkey (fst j)) (attnum (snd j)))
             [(ix, a).
                ix \<leftarrow> pg_index cat,
                ci \<leftarrow> pg_class cat, rel_oid ci = indexrelid ix,
                ct \<leftarrow> pg_class cat, rel_oid ct = indrelid ix,
                a \<leftarrow> pg_attribute cat, attrelid a = rel_oid ct \<and> attnum a \<in> set (indkey ix),
                n \<leftarrow> pg_namespace cat, nsp_oid n = relnamespace ct,
                relname ci = indexname i \<and> nspname n = schemaname i \<and> relname ct = tablename i]
      of
        [] \<Rightarrow> JNull
      | j # js \<Rightarrow> JArr (map (\<lambda>j. JStr (attname (snd j))) (j # js)))"

text \<open>
  \<^verbatim>\<open>SELECT i.indexname AS index_name, i.indexdef AS index_definition, (...) AS
  column_names, i.tablespace AS tablespace_name,
  CASE WHEN i.indexdef LIKE '%UNIQUE INDEX%' THEN true ELSE false END AS is_unique,
  CASE WHEN pg_index.indisprimary THEN true ELSE false END AS is_primary,
  CASE WHEN pg_index.indisvalid THEN true ELSE false END AS is_valid
  FROM pg_indexes i JOIN pg_class c ON c.relname = i.indexname
  JOIN pg_namespace n ON n.nspname = i.schemaname AND n.oid = c.relnamespace
  JOIN pg_index ON pg_index.indexrelid = c.oid
  WHERE i.schemaname = $1 AND i.tablename = $2 ORDER BY i.indexname\<close>
\<close>

type_synonym index_join = "pg_indexes_row \<times> pg_index_row"

definition index_row :: "catalog \<Rightarrow> index_join \<Rightarrow> jsval" where
  "index_row cat j =
     (case j of (i, x) \<Rightarrow>
        JObj
          [(''index_name'', JStr (indexname i)),
           (''index_definition'', JStr (indexdef i)),
           (''column_names'', column_names cat i),
           (''tablespace_name'', js_text (tablespace i)),
           (''is_unique'', JBool (sql_like (indexdef i) ''%UNIQUE INDEX%'')),
           (''is_primary'', JBool (indisprimary x)),
           (''is_valid'', JBool (indisvalid x))])"

definition indexes_of :: "catalog \<Rightarrow> string option \<Rightarrow> string option \<Rightarrow> index_join list" where
  "indexes_of cat p1 p2 =
     sort_key (\<lambda>j. indexname (fst j))
       [(i, x).
          i \<leftarrow> pg_indexes cat,
          c \<leftarrow> pg_class cat, relname c = indexname i,
          n \<leftarrow> pg_namespace cat, nspname n = schemaname i \<and> nsp_oid n = relnamespace c,
          x \<leftarrow> pg_index cat, indexrelid x = rel_oid c,
          Some (schemaname i) = p1 \<and> Some (tablename i) = p2]"

definition sql_indexes :: "catalog \<Rightarrow> string option \<Rightarrow> string option \<Rightarrow> jsval list" where
  "sql_indexes cat p1 p2 = map (index_row cat) (indexes_of cat p1 p2)"

section \<open>A PostgreSQL connection as a client\<close>

text \<open>
  What stands between the extractor and the catalog is the driver. Of it the model keeps:
  which commands it rejects (a function of the command, fixed for a fixed server state),
  the text it sends for a parameter that is not a string (\<open>prepare_value\<close>; a string is
  sent as it is, \<^verbatim>\<open>null\<close> and \<^verbatim>\<open>undefined\<close> as NULL), and the error of a command whose
  parameter count is not the one its text needs.
\<close>

record 'e pg_env =
  catalog_of :: catalog
  rejects :: "sql \<Rightarrow> jsval list \<Rightarrow> 'e option"
  prepare_value :: "jsval \<Rightarrow> string option"
  bind_error :: 'e

definition param :: "'e pg_env \<Rightarrow> jsval \<Rightarrow> string option" where
  "param env v =
     (case v of
        JStr s \<Rightarrow> Some s
      | JNull \<Rightarrow> None
      | JUndefined \<Rightarrow> None
      | _ \<Rightarrow> prepare_value env v)"

text \<open>
  The rows of each command, or \<open>None\<close> when the parameters do not fit its text. Only the
  deparsing functions read the search path; \<^verbatim>\<open>current_database()\<close> does not.
\<close>

definition pg_rows :: "'e pg_env \<Rightarrow> search_path \<Rightarrow> sql \<Rightarrow> jsval list \<Rightarrow> jsval list option" where
  "pg_rows env sp q ps =
     (case q of
        Q_current_database \<Rightarrow>
          (case ps of [] \<Rightarrow> Some (sql_current_database (catalog_of env)) | _ \<Rightarrow> None)
      | Q_set_search_path \<Rightarrow>
          (case ps of [] \<Rightarrow> Some [] | _ \<Rightarrow> None)
      | Q_schemas \<Rightarrow>
          (case ps of [] \<Rightarrow> Some (sql_schemas (catalog_of env)) | _ \<Rightarrow> None)
      | Q_tables \<Rightarrow>
          (case ps of
             [p1] \<Rightarrow> Some (sql_tables (catalog_of env) (param env p1))
           | _ \<Rightarrow> None)
      | Q_columns \<Rightarrow>
          (case ps of
             [p1, p2] \<Rightarrow> Some (sql_columns (catalog_of env) (param env p1) (param env p2))
           | _ \<Rightarrow> None)
      | Q_constraints \<Rightarrow>
          (case ps of
             [p1, p2] \<Rightarrow> Some (sql_constraints (catalog_of env) sp (param env p1) (param env p2))
           | _ \<Rightarrow> None)
      | Q_foreign_keys \<Rightarrow>
          (case ps of
             [p1, p2] \<Rightarrow> Some (sql_foreign_keys (catalog_of env) (param env p1) (param env p2))
           | _ \<Rightarrow> None)
      | Q_triggers \<Rightarrow>
          (case ps of
             [p1, p2] \<Rightarrow> Some (sql_triggers (catalog_of env) sp (param env p1) (param env p2))
           | _ \<Rightarrow> None)
      | Q_views \<Rightarrow>
          (case ps of
             [p1] \<Rightarrow> Some (sql_views (catalog_of env) (param env p1))
           | _ \<Rightarrow> None)
      | Q_functions \<Rightarrow>
          (case ps of
             [p1] \<Rightarrow> Some (sql_functions (catalog_of env) sp (param env p1))
           | _ \<Rightarrow> None)
      | Q_indexes \<Rightarrow>
          (case ps of
             [p1, p2] \<Rightarrow> Some (sql_indexes (catalog_of env) (param env p1) (param env p2))
           | _ \<Rightarrow> None))"

text \<open>\<^verbatim>\<open>SET search_path TO "$user", public\<close> is the one command that changes the session.\<close>

definition pg_effect :: "sql \<Rightarrow> search_path \<Rightarrow> search_path" where
  "pg_effect q sp = (if q = Q_set_search_path then [''$user'', ''public''] else sp)"

definition pg_client :: "'e pg_env \<Rightarrow> (search_path, 'e) client" where
  "pg_client env q ps sp =
     (case rejects env q ps of
        Some e \<Rightarrow> (Inl e, sp)
      | None \<Rightarrow>
          (case pg_rows env sp q ps of
             None \<Rightarrow> (Inl (bind_error env), sp)
           | Some rows \<Rightarrow> (Inr rows, pg_effect q sp)))"

section \<open>Reading a document, and runs to start from\<close>

definition elems :: "jsval \<Rightarrow> jsval list" where
  "elems v = (case v of JArr xs \<Rightarrow> xs | _ \<Rightarrow> [])"

definition children :: "string \<Rightarrow> jsval \<Rightarrow> jsval list" where
  "children k v = elems (prop_of v k)"

definition keys :: "jsval \<Rightarrow> string list" where
  "keys v = (case v of JObj kvs \<Rightarrow> map fst kvs | _ \<Rightarrow> [])"

definition doc_schemas :: "jsval \<Rightarrow> jsval list" where
  "doc_schemas d = concat (map (children ''schemas'') (children ''databases'' d))"

definition doc_tables :: "jsval \<Rightarrow> jsval list" where
  "doc_tables d = concat (map (children ''tables'') (doc_schemas d))"

definition start :: "'s \<Rightarrow> ('s, 'e) world" where
  "start s = \<lparr>session = s, events = []\<rparr>"

text \<open>A client whose every command succeeds with no row (a stub, not a server).\<close>

definition no_rows_client :: "(unit, unit) client" where
  "no_rows_client q ps s = (Inr [], s)"

text \<open>Predicates on parts of a document.\<close>

definition text_of :: "jsval \<Rightarrow> string option" where
  "text_of v = (case v of JStr s \<Rightarrow> Some s | _ \<Rightarrow> None)"

text \<open>
  \<open>sorted_by k xs\<close>: every entry of \<open>xs\<close> has a string under the key \<open>k\<close>, and these
  strings ascend along the list.
\<close>

definition sorted_by :: "string \<Rightarrow> jsval list \<Rightarrow> bool" where
  "sorted_by k xs =
     (list_all (\<lambda>x. text_of (prop_of x k) \<noteq> None) xs \<and>
      sorted (map (\<lambda>x. the (text_of (prop_of x k))) xs))"

text \<open>
  A function is native when its language is in the catalog and every language row with
  its \<open>prolang\<close> is named \<^verbatim>\<open>internal\<close> or \<^verbatim>\<open>c\<close>.
\<close>

definition native :: "catalog \<Rightarrow> pg_proc_row \<Rightarrow> bool" where
  "native cat p =
     (filter (\<lambda>l. prolang p = lang_oid l) (pg_language cat) \<noteq> [] \<and>
      list_all (\<lambda>l. lanname l = ''internal'' \<or> lanname l = ''c'')
        (filter (\<lambda>l. prolang p = lang_oid l) (pg_language cat)))"

section \<open>What a run over a PostgreSQL connection returns\<close>

text \<open>
  The document a run assembles when no command fails, written without the connection:
  \<open>sp\<close> is the search path in effect after the first command of \<^verbatim>\<open>getSchemas\<close>.
\<close>

definition table_doc :: "'e pg_env \<Rightarrow> search_path \<Rightarrow> jsval \<Rightarrow> jsval \<Rightarrow> jsval" where
  "table_doc env sp schemaName row =
     (let tableName = prop_of row ''table_name'';
          p1 = param env schemaName;
          p2 = param env tableName
      in JObj
           [(''name'', tableName),
            (''columns'', JArr (sql_columns (catalog_of env) p1 p2)),
            (''constraints'', JArr (sql_constraints (catalog_of env) sp p1 p2)),
            (''foreignKeys'', JArr (sql_foreign_keys (catalog_of env) p1 p2)),
            (''triggers'', JArr (sql_triggers (catalog_of env) sp p1 p2)),
            (''indexes'', JArr (sql_indexes (catalog_of env) p1 p2))])"

definition schema_doc :: "'e pg_env \<Rightarrow> search_path \<Rightarrow> jsval \<Rightarrow> jsval" where
  "schema_doc env sp row =
     (let schemaName = prop_of row ''schema_name'';
          p1 = param env schemaName
      in JObj
           [(''name'', schemaName),
            (''tables'',
             JArr (map (table_doc env sp schemaName) (sql_tables (catalog_of env) p1))),
            (''views'', JArr (map view_object (sql_views (catalog_of env) p1))),
            (''functions'',
             JArr (map function_object (sql_functions (catalog_of env) sp p1)))])"

definition document :: "'e pg_env \<Rightarrow> search_path \<Rightarrow> jsval" where
  "document env sp =
     JObj
       [(''databases'',
         JArr
           [JObj
              [(''name'', JStr (current_database (catalog_of env))),
               (''schemas'', JArr (map (schema_doc env sp) (sql_schemas (catalog_of env))))]])]"

definition path_in_effect :: "'e pg_env \<Rightarrow> search_path \<Rightarrow> search_path" where
  "path_in_effect env sp =
     (case rejects env Q_set_search_path [] of
        None \<Rightarrow> [''$user'', ''public'']
      | Some e \<Rightarrow> sp)"

text \<open>
  Three properties of a computation that compose along \<^const>\<open>io_bind\<close>:
  \<open>yields m sp x\<close>: started on a connection in state \<open>sp\<close>, \<open>m\<close> leaves it in that
  state, and the only value it can return is \<open>x\<close>;
  \<open>returns m sp x\<close>: started on a connection in state \<open>sp\<close>, \<open>m\<close> leaves it in
  that state and does return \<open>x\<close>;
  \<open>determined m\<close>: the result and the next connection state depend on the connection
  state alone, not on what was logged before.
\<close>

definition returns :: "('a, 's, 'e) io \<Rightarrow> 's \<Rightarrow> 'a \<Rightarrow> bool" where
  "returns m sp x = (\<forall>w. session w = sp \<longrightarrow> session (snd (m w)) = sp \<and> fst (m w) = Inr x)"

definition yields :: "('a, 's, 'e) io \<Rightarrow> 's \<Rightarrow> 'a \<Rightarrow> bool" where
  "yields m sp x =
     (\<forall>w. session w = sp \<longrightarrow>
        session (snd (m w)) = sp \<and> (\<forall>v. fst (m w) = Inr v \<longrightarrow> v = x))"

definition determined :: "('a, 's, 'e) io \<Rightarrow> bool" where
  "determined m =
     (\<forall>w1 w2. session w1 = session w2 \<longrightarrow>
        fst (m w1) = fst (m w2) \<and> session (snd (m w1)) = session (snd (m w2)))"

text \<open>A server that rejects no command, the search-path command apart.\<close>

definition accepts :: "'e pg_env \<Rightarrow> bool" where
  "accepts env = (\<forall>q ps. q \<noteq> Q_set_search_path \<longrightarrow> rejects env q ps = None)"

text \<open>
  An event is \<open>clean\<close> unless it is a rejected command other than the search-path
  command. \<open>traced m\<close>: a run of \<open>m\<close> only appends events; they are all clean when it
  returns or ends in a \<^verbatim>\<open>TypeError\<close>; and when it ends in a rejection, that rejection is
  the last event, the only one that is not clean.
\<close>

definition clean :: "'e event \<Rightarrow> bool" where
  "clean ev =
     (case ev of
        Sent q ps (Some e) \<Rightarrow> q = Q_set_search_path
      | _ \<Rightarrow> True)"

definition outcome :: "'e js_error + 'a \<Rightarrow> 'e event list \<Rightarrow> bool" where
  "outcome r new =
     (case r of
        Inr v \<Rightarrow> list_all clean new
      | Inl TypeError \<Rightarrow> list_all clean new
      | Inl (Rejected e) \<Rightarrow>
          (\<exists>pre q ps. new = pre @ [Sent q ps (Some e)] \<and> q \<noteq> Q_set_search_path \<and>
             list_all clean pre))"

definition traced :: "('a, 's, 'e) io \<Rightarrow> bool" where
  "traced m =
     (\<forall>w. \<exists>new. events (snd (m w)) = events w @ new \<and> outcome (fst (m w)) new)"

section \<open>A catalog to run on\<close>

text \<open>
  A database \<^verbatim>\<open>shop\<close> with the schemas \<^verbatim>\<open>public\<close> and \<^verbatim>\<open>audit\<close> (which is empty):
  \<^verbatim>\<open>
  CREATE TABLE warehouses (region text, code text, PRIMARY KEY (code, region));
  CREATE TABLE shipments (id int PRIMARY KEY, wh_code text, wh_region text,
    CONSTRAINT shipments_wh_fkey FOREIGN KEY (wh_code, wh_region)
      REFERENCES warehouses (code, region) ON DELETE CASCADE);
  CREATE TABLE users (id int NOT NULL, name text DEFAULT 'anon', PRIMARY KEY (id));
  CREATE INDEX users_label_idx ON users (name) WHERE name <> 'UNIQUE INDEX';
  CREATE VIEW active_users AS SELECT id, name FROM users;
  CREATE FUNCTION touch_row() RETURNS trigger LANGUAGE plpgsql ...;
  CREATE FUNCTION fast_hash(int) RETURNS int LANGUAGE c ...;
  CREATE TRIGGER users_touch BEFORE UPDATE ON users FOR EACH ROW
    EXECUTE FUNCTION touch_row();
  \<close>
  The foreign key names the columns of \<^verbatim>\<open>warehouses\<close> in the order \<^verbatim>\<open>(code, region)\<close>,
  the table declares them in the order \<^verbatim>\<open>(region, code)\<close>.
\<close>

definition shop_namespace :: "pg_namespace_row list" where
  "shop_namespace =
     [\<lparr>nsp_oid = 11, nspname = ''pg_catalog''\<rparr>,
      \<lparr>nsp_oid = 2200, nspname = ''public''\<rparr>,
      \<lparr>nsp_oid = 13, nspname = ''information_schema''\<rparr>,
      \<lparr>nsp_oid = 16500, nspname = ''audit''\<rparr>]"

definition shop_class :: "pg_class_row list" where
  "shop_class =
     [\<lparr>rel_oid = 16401, relname = ''warehouses'', relnamespace = 2200\<rparr>,
      \<lparr>rel_oid = 16402, relname = ''shipments'', relnamespace = 2200\<rparr>,
      \<lparr>rel_oid = 16403, relname = ''users'', relnamespace = 2200\<rparr>,
      \<lparr>rel_oid = 16410, relname = ''users_pkey'', relnamespace = 2200\<rparr>,
      \<lparr>rel_oid = 16411, relname = ''warehouses_pkey'', relnamespace = 2200\<rparr>,
      \<lparr>rel_oid = 16412, relname = ''users_label_idx'', relnamespace = 2200\<rparr>,
      \<lparr>rel_oid = 16413, relname = ''shipments_pkey'', relnamespace = 2200\<rparr>]"

definition shop_attribute :: "pg_attribute_row list" where
  "shop_attribute =
     [\<lparr>attrelid = 16401, attnum = 1, attname = ''region''\<rparr>,
      \<lparr>attrelid = 16401, attnum = 2, attname = ''code''\<rparr>,
      \<lparr>attrelid = 16402, attnum = 1, attname = ''id''\<rparr>,
      \<lparr>attrelid = 16402, attnum = 2, attname = ''wh_code''\<rparr>,
      \<lparr>attrelid = 16402, attnum = 3, attname = ''wh_region''\<rparr>,
      \<lparr>attrelid = 16403, attnum = 1, attname = ''id''\<rparr>,
      \<lparr>attrelid = 16403, attnum = 2, attname = ''name''\<rparr>]"

definition shop_constraint :: "pg_constraint_row list" where
  "shop_constraint =
     [\<lparr>con_oid = 16420, conname = ''users_pkey'', contype = CHR ''p'', conrelid = 16403,
       confrelid = 0, conkey = [1], confkey = [], confupdtype = CHR '' '',
       confdeltype = CHR '' ''\<rparr>,
      \<lparr>con_oid = 16421, conname = ''warehouses_pkey'', contype = CHR ''p'',
       conrelid = 16401, confrelid = 0, conkey = [2, 1], confkey = [],
       confupdtype = CHR '' '', confdeltype = CHR '' ''\<rparr>,
      \<lparr>con_oid = 16422, conname = ''shipments_wh_fkey'', contype = CHR ''f'',
       conrelid = 16402, confrelid = 16401, conkey = [2, 3], confkey = [2, 1],
       confupdtype = CHR ''a'', confdeltype = CHR ''c''\<rparr>,
      \<lparr>con_oid = 16423, conname = ''shipments_pkey'', contype = CHR ''p'',
       conrelid = 16402, confrelid = 0, conkey = [1], confkey = [],
       confupdtype = CHR '' '', confdeltype = CHR '' ''\<rparr>]"

text \<open>\<open>tgtype\<close> 19 is ROW (1) + BEFORE (2) + UPDATE (16).\<close>

definition shop_trigger :: "pg_trigger_row list" where
  "shop_trigger =
     [\<lparr>trg_oid = 16430, tgname = ''users_touch'', tgenabled = CHR ''O'', tgtype = 19,
       tgrelid = 16403, tgfoid = 16440, tgisinternal = False\<rparr>]"

definition shop_proc :: "pg_proc_row list" where
  "shop_proc =
     [\<lparr>proc_oid = 16440, proname = ''touch_row'', pronamespace = 2200, prorettype = 2279,
       prolang = 13581, prosrc = ''BEGIN RETURN NEW; END'', provolatile = CHR ''v'',
       proisstrict = False, proretset = False, prokind = CHR ''f''\<rparr>,
      \<lparr>proc_oid = 16441, proname = ''fast_hash'', pronamespace = 2200, prorettype = 23,
       prolang = 13, prosrc = ''fast_hash'', provolatile = CHR ''i'',
       proisstrict = True, proretset = False, prokind = CHR ''f''\<rparr>]"

definition shop_type :: "pg_type_row list" where
  "shop_type =
     [\<lparr>typ_oid = 23, typname = ''int4''\<rparr>,
      \<lparr>typ_oid = 2279, typname = ''trigger''\<rparr>]"

definition shop_language :: "pg_language_row list" where
  "shop_language =
     [\<lparr>lang_oid = 12, lanname = ''internal''\<rparr>,
      \<lparr>lang_oid = 13, lanname = ''c''\<rparr>,
      \<lparr>lang_oid = 14, lanname = ''sql''\<rparr>,
      \<lparr>lang_oid = 13581, lanname = ''plpgsql''\<rparr>]"

text \<open>
  The index \<^verbatim>\<open>users_label_idx\<close> is not unique (\<open>indisunique\<close> is false), and its
  definition holds the text \<^verbatim>\<open>UNIQUE INDEX\<close> inside its predicate.
\<close>

definition shop_index :: "pg_index_row list" where
  "shop_index =
     [\<lparr>indexrelid = 16410, indrelid = 16403, indkey = [1], indisunique = True,
       indisprimary = True, indisvalid = True\<rparr>,
      \<lparr>indexrelid = 16411, indrelid = 16401, indkey = [2, 1], indisunique = True,
       indisprimary = True, indisvalid = True\<rparr>,
      \<lparr>indexrelid = 16412, indrelid = 16403, indkey = [2], indisunique = False,
       indisprimary = False, indisvalid = True\<rparr>,
      \<lparr>indexrelid = 16413, indrelid = 16402, indkey = [1], indisunique = True,
       indisprimary = True, indisvalid = True\<rparr>]"

definition shop_indexes :: "pg_indexes_row list" where
  "shop_indexes =
     [\<lparr>schemaname = ''public'', tablename = ''users'', indexname = ''users_pkey'',
       tablespace = None,
       indexdef = ''CREATE UNIQUE INDEX users_pkey ON public.users USING btree (id)''\<rparr>,
      \<lparr>schemaname = ''public'', tablename = ''warehouses'', indexname = ''warehouses_pkey'',
       tablespace = None,
       indexdef =
         ''CREATE UNIQUE INDEX warehouses_pkey ON public.warehouses USING btree (code, region)''\<rparr>,
      \<lparr>schemaname = ''public'', tablename = ''users'', indexname = ''users_label_idx'',
       tablespace = None,
       indexdef =
         ''CREATE INDEX users_label_idx ON public.users USING btree (name) WHERE (name <> 'UNIQUE INDEX'::text)''\<rparr>,
      \<lparr>schemaname = ''public'', tablename = ''shipments'', indexname = ''shipments_pkey'',
       tablespace = None,
       indexdef = ''CREATE UNIQUE INDEX shipments_pkey ON public.shipments USING btree (id)''\<rparr>]"

definition shop_tables :: "tables_row list" where
  "shop_tables =
     [\<lparr>tables_table_schema = ''public'', tables_table_name = ''warehouses'',
       table_type = ''BASE TABLE''\<rparr>,
      \<lparr>tables_table_schema = ''public'', tables_table_name = ''shipments'',
       table_type = ''BASE TABLE''\<rparr>,
      \<lparr>tables_table_schema = ''public'', tables_table_name = ''users'',
       table_type = ''BASE TABLE''\<rparr>,
      \<lparr>tables_table_schema = ''public'', tables_table_name = ''active_users'',
       table_type = ''VIEW''\<rparr>]"

definition shop_columns :: "columns_row list" where
  "shop_columns =
     [\<lparr>columns_table_schema = ''public'', columns_table_name = ''users'',
       ordinal_position = 1, column_name = ''id'', data_type = ''integer'',
       is_nullable = ''NO'', column_default = None, character_maximum_length = None,
       numeric_precision = Some 32, numeric_scale = Some 0\<rparr>,
      \<lparr>columns_table_schema = ''public'', columns_table_name = ''users'',
       ordinal_position = 2, column_name = ''name'', data_type = ''text'',
       is_nullable = ''YES'', column_default = Some '''anon'::text'',
       character_maximum_length = None, numeric_precision = None, numeric_scale = None\<rparr>,
      \<lparr>columns_table_schema = ''public'', columns_table_name = ''warehouses'',
       ordinal_position = 1, column_name = ''region'', data_type = ''text'',
       is_nullable = ''NO'', column_default = None, character_maximum_length = None,
       numeric_precision = None, numeric_scale = None\<rparr>,
      \<lparr>columns_table_schema = ''public'', columns_table_name = ''warehouses'',
       ordinal_position = 2, column_name = ''code'', data_type = ''text'',
       is_nullable = ''NO'', column_default = None, character_maximum_length = None,
       numeric_precision = None, numeric_scale = None\<rparr>,
      \<lparr>columns_table_schema = ''public'', columns_table_name = ''shipments'',
       ordinal_position = 1, column_name = ''id'', data_type = ''integer'',
       is_nullable = ''NO'', column_default = None, character_maximum_length = None,
       numeric_precision = Some 32, numeric_scale = Some 0\<rparr>,
      \<lparr>columns_table_schema = ''public'', columns_table_name = ''shipments'',
       ordinal_position = 2, column_name = ''wh_code'', data_type = ''text'',
       is_nullable = ''YES'', column_default = None, character_maximum_length = None,
       numeric_precision = None, numeric_scale = None\<rparr>,
      \<lparr>columns_table_schema = ''public'', columns_table_name = ''shipments'',
       ordinal_position = 3, column_name = ''wh_region'', data_type = ''text'',
       is_nullable = ''YES'', column_default = None, character_maximum_length = None,
       numeric_precision = None, numeric_scale = None\<rparr>]"

definition shop_views :: "views_row list" where
  "shop_views =
     [\<lparr>views_table_schema = ''public'', views_table_name = ''active_users'',
       view_definition = Some ''SELECT id, name FROM users;''\<rparr>]"

text \<open>
  The deparsed foreign key names its target table with the schema unless \<^verbatim>\<open>public\<close> is
  on the search path.
\<close>

definition shop_constraintdef :: "search_path \<Rightarrow> oid \<Rightarrow> string option" where
  "shop_constraintdef sp con =
     (if con = 16420 then Some ''PRIMARY KEY (id)''
      else if con = 16421 then Some ''PRIMARY KEY (code, region)''
      else if con = 16423 then Some ''PRIMARY KEY (id)''
      else if con = 16422 then
        Some (if ''public'' \<in> set sp
          then ''FOREIGN KEY (wh_code, wh_region) REFERENCES warehouses(code, region) ON DELETE CASCADE''
          else ''FOREIGN KEY (wh_code, wh_region) REFERENCES public.warehouses(code, region) ON DELETE CASCADE'')
      else None)"

definition shop_triggerdef :: "search_path \<Rightarrow> oid \<Rightarrow> string option" where
  "shop_triggerdef sp trg =
     (if trg = 16430 then
        Some ''CREATE TRIGGER users_touch BEFORE UPDATE ON public.users FOR EACH ROW EXECUTE FUNCTION touch_row()''
      else None)"

definition shop_function_arguments :: "search_path \<Rightarrow> oid \<Rightarrow> string option" where
  "shop_function_arguments sp p = (if p = 16441 then Some ''integer'' else Some [])"

definition shop_catalog :: catalog where
  "shop_catalog =
     \<lparr>current_database = ''shop'',
      pg_namespace = shop_namespace,
      pg_class = shop_class,
      pg_attribute = shop_attribute,
      pg_constraint = shop_constraint,
      pg_trigger = shop_trigger,
      pg_proc = shop_proc,
      pg_type = shop_type,
      pg_language = shop_language,
      pg_index = shop_index,
      pg_indexes = shop_indexes,
      information_schema_tables = shop_tables,
      information_schema_columns = shop_columns,
      information_schema_views = shop_views,
      pg_get_constraintdef = shop_constraintdef,
      pg_get_triggerdef = shop_triggerdef,
      pg_get_function_arguments = shop_function_arguments\<rparr>"

text \<open>A server that rejects nothing, and one that rejects the search-path command only.\<close>

definition shop :: "string pg_env" where
  "shop =
     \<lparr>catalog_of = shop_catalog,
      rejects = (\<lambda>q ps. None),
      prepare_value = (\<lambda>v. None),
      bind_error = ''bind message supplies the wrong number of parameters''\<rparr>"

definition shop_no_set :: "string pg_env" where
  "shop_no_set =
     shop\<lparr>rejects :=
       (\<lambda>q ps. if q = Q_set_search_path then Some ''permission denied'' else None)\<rparr>"

text \<open>
  A server that rejects the search-path command and the table listing, and the state of a
  new connection whose search path is empty.
\<close>

definition shop_denied :: "string pg_env" where
  "shop_denied =
     shop\<lparr>rejects :=
       (\<lambda>q ps.
          if q = Q_set_search_path then Some ''permission denied to set parameter''
          else if q = Q_tables then Some ''permission denied for view tables''
          else None)\<rparr>"

definition bare :: "(search_path, string) world" where
  "bare = start []"

text \<open>The example document by parts.\<close>

definition shop_path :: search_path where
  "shop_path = [''$user'', ''public'']"

definition shop_table :: "string \<Rightarrow> jsval" where
  "shop_table name =
     table_doc shop shop_path (JStr ''public'') (JObj [(''table_name'', JStr name)])"

definition shop_schema :: "string \<Rightarrow> jsval" where
  "shop_schema name = schema_doc shop shop_path (JObj [(''schema_name'', JStr name)])"

section \<open>The first row of the current-database query\<close>

text \<open>
  Claim C9. \<^verbatim>\<open>extractStructure\<close> reads \<^verbatim>\<open>currentDbResult.rows[0].db_name\<close> without looking
  at the length of \<^verbatim>\<open>rows\<close>. When the current-database query answers with no row, the
  extraction ends in the runtime's \<^verbatim>\<open>TypeError\<close>, not in a rejection of the driver; and
  whenever it returns a document, that query had a first row to read.
\<close>

theorem extractStructure_needs_first_row:
  "(fst (c Q_current_database [] (session w)) = Inr [] \<longrightarrow>
      fst (extractStructure c w) = Inl TypeError) \<and>
   (fst (extractStructure c w) = Inr d \<longrightarrow>
      (\<exists>row rows. fst (c Q_current_database [] (session w)) = Inr (row # rows) \<and> \<not> nullish row))"
  by (auto simp: extractStructure_def try_catch_def io_bind_def query_def io_lift_def
      get_prop_def first_row_def emit_def io_throw_def nullish_def
      split: prod.splits sum.splits list.splits if_splits)

theorem extractStructure_needs_first_row_witness:
  "fst (no_rows_client Q_current_database [] (session (start ()))) = Inr [] \<and>
   fst (extractStructure no_rows_client (start ())) = Inl TypeError"
  using extractStructure_needs_first_row [of no_rows_client "start ()"]
  by (simp add: no_rows_client_def)

section \<open>Runs over a PostgreSQL connection\<close>

subsection \<open>What a run can return\<close>

lemma yields_return: "yields (io_return x) sp x"
  by (simp add: yields_def io_return_def)

lemma yields_bind:
  fixes m :: "('a, 's, 'e) io" and f :: "'a \<Rightarrow> ('b, 's, 'e) io"
  assumes "yields m sp x" and "yields (f x) sp y"
  shows "yields (io_bind m f) sp y"
  unfolding yields_def
proof (intro allI impI)
  fix w :: "('s, 'e) world"
  assume w: "session w = sp"
  obtain r w' where mw: "m w = (r, w')" by (cases "m w")
  from assms(1) w mw have s': "session w' = sp" and val: "\<And>v. r = Inr v \<Longrightarrow> v = x"
    by (auto simp: yields_def)
  show "session (snd (io_bind m f w)) = sp \<and> (\<forall>v. fst (io_bind m f w) = Inr v \<longrightarrow> v = y)"
  proof (cases r)
    case (Inl err)
    with mw s' show ?thesis by (simp add: io_bind_def)
  next
    case (Inr v)
    with val have "v = x" by simp
    with Inr mw have "io_bind m f w = f x w'" by (simp add: io_bind_def)
    with assms(2) s' show ?thesis by (simp add: yields_def)
  qed
qed

lemma yields_lift: "(\<And>v. r = Inr v \<Longrightarrow> v = x) \<Longrightarrow> yields (io_lift r) sp x"
  by (simp add: yields_def io_lift_def)

lemma yields_for_rows:
  "(\<And>row. row \<in> set rows \<Longrightarrow> yields (body row) sp (g row)) \<Longrightarrow>
   yields (for_rows body rows out) sp (out @ map g rows)"
proof (induction rows arbitrary: out)
  case Nil
  show ?case by (simp add: yields_return)
next
  case (Cons row rows)
  have "yields (for_rows body rows (out @ [g row])) sp ((out @ [g row]) @ map g rows)"
    by (rule Cons.IH) (simp add: Cons.prems)
  then show ?case
    using Cons.prems [of row] by (auto intro: yields_bind)
qed

lemma yields_query:
  "q \<noteq> Q_set_search_path \<Longrightarrow> pg_rows env sp q ps = Some rows \<Longrightarrow>
   yields (query (pg_client env) q ps) sp rows"
  by (auto simp: yields_def query_def pg_client_def pg_effect_def split: option.splits)

lemma map_rows_Inr: "map_rows f rows = Inr vs \<Longrightarrow> (\<And>row v. f row = Inr v \<Longrightarrow> v = g row) \<Longrightarrow> vs = map g rows"
  by (induction rows arbitrary: vs) (auto split: sum.splits)

lemma view_entry_Inr: "view_entry row = Inr v \<Longrightarrow> v = view_object row"
  by (simp add: view_entry_def split: if_splits)

lemma function_entry_Inr: "function_entry row = Inr v \<Longrightarrow> v = function_object row"
  by (simp add: function_entry_def split: if_splits)

lemma yields_getColumns:
  "yields (getColumns (pg_client env) sn tn) sp
     (JArr (sql_columns (catalog_of env) (param env sn) (param env tn)))"
  unfolding getColumns_def
  by (rule yields_bind [OF yields_query yields_return]) (simp_all add: pg_rows_def)

lemma yields_getConstraints:
  "yields (getConstraints (pg_client env) sn tn) sp
     (JArr (sql_constraints (catalog_of env) sp (param env sn) (param env tn)))"
  unfolding getConstraints_def
  by (rule yields_bind [OF yields_query yields_return]) (simp_all add: pg_rows_def)

lemma yields_getForeignKeys:
  "yields (getForeignKeys (pg_client env) sn tn) sp
     (JArr (sql_foreign_keys (catalog_of env) (param env sn) (param env tn)))"
  unfolding getForeignKeys_def
  by (rule yields_bind [OF yields_query yields_return]) (simp_all add: pg_rows_def)

lemma yields_getTriggers:
  "yields (getTriggers (pg_client env) sn tn) sp
     (JArr (sql_triggers (catalog_of env) sp (param env sn) (param env tn)))"
  unfolding getTriggers_def
  by (rule yields_bind [OF yields_query yields_return]) (simp_all add: pg_rows_def)

lemma yields_getIndexes:
  "yields (getIndexes (pg_client env) sn tn) sp
     (JArr (sql_indexes (catalog_of env) (param env sn) (param env tn)))"
  unfolding getIndexes_def
  by (rule yields_bind [OF yields_query yields_return]) (simp_all add: pg_rows_def)

lemma yields_get_prop: "yields (io_lift (get_prop row k)) sp (prop_of row k)"
  by (rule yields_lift) (simp add: get_prop_def split: if_splits)

lemma yields_table_entry:
  "yields (table_entry (pg_client env) sn row) sp (table_doc env sp sn row)"
  unfolding table_entry_def table_doc_def Let_def
  by (intro yields_bind [OF yields_get_prop] yields_bind [OF yields_getColumns]
      yields_bind [OF yields_getConstraints] yields_bind [OF yields_getForeignKeys]
      yields_bind [OF yields_getTriggers] yields_bind [OF yields_getIndexes] yields_return)

lemma yields_getTables:
  "yields (getTables (pg_client env) sn) sp
     (JArr (map (table_doc env sp sn) (sql_tables (catalog_of env) (param env sn))))"
proof -
  have q: "yields (query (pg_client env) Q_tables [sn]) sp (sql_tables (catalog_of env) (param env sn))"
    by (rule yields_query) (simp_all add: pg_rows_def)
  have loop: "yields (for_rows (table_entry (pg_client env) sn) rows []) sp
      ([] @ map (table_doc env sp sn) rows)" for rows
    by (rule yields_for_rows) (rule yields_table_entry)
  show ?thesis
    unfolding getTables_def
    using loop by (auto intro!: yields_bind [OF q] yields_bind [OF _ yields_return])
qed

lemma yields_getViews:
  "yields (getViews (pg_client env) sn) sp
     (JArr (map view_object (sql_views (catalog_of env) (param env sn))))"
proof -
  have q: "yields (query (pg_client env) Q_views [sn]) sp (sql_views (catalog_of env) (param env sn))"
    by (rule yields_query) (simp_all add: pg_rows_def)
  have m: "yields (io_lift (map_rows view_entry rows)) sp (map view_object rows)" for rows
    by (rule yields_lift) (erule map_rows_Inr, erule view_entry_Inr)
  show ?thesis
    unfolding getViews_def
    by (intro yields_bind [OF q] yields_bind [OF m] yields_return)
qed

lemma yields_getFunctions:
  "yields (getFunctions (pg_client env) sn) sp
     (JArr (map function_object (sql_functions (catalog_of env) sp (param env sn))))"
proof -
  have q: "yields (query (pg_client env) Q_functions [sn]) sp
      (sql_functions (catalog_of env) sp (param env sn))"
    by (rule yields_query) (simp_all add: pg_rows_def)
  have m: "yields (io_lift (map_rows function_entry rows)) sp (map function_object rows)" for rows
    by (rule yields_lift) (erule map_rows_Inr, erule function_entry_Inr)
  show ?thesis
    unfolding getFunctions_def
    by (intro yields_bind [OF q] yields_bind [OF m] yields_return)
qed

lemma yields_schema_entry:
  "yields (schema_entry (pg_client env) row) sp (schema_doc env sp row)"
  unfolding schema_entry_def schema_doc_def Let_def
  by (intro yields_bind [OF yields_get_prop] yields_bind [OF yields_getTables]
      yields_bind [OF yields_getViews] yields_bind [OF yields_getFunctions] yields_return)


lemma set_path_returns: "fst (set_search_path c w) = Inr ()"
  by (auto simp: set_search_path_def try_catch_def io_bind_def query_def io_return_def emit_def
      split: prod.splits sum.splits)

lemma set_path_session:
  "session (snd (set_search_path (pg_client env) w)) = path_in_effect env (session w)"
  by (auto simp: set_search_path_def try_catch_def io_bind_def query_def io_return_def emit_def
      pg_client_def pg_effect_def pg_rows_def path_in_effect_def
      split: prod.splits sum.splits option.splits)

lemma yields_schemas_loop:
  "yields
     (io_bind (query (pg_client env) Q_schemas []) (\<lambda>rows.
      io_bind (for_rows (schema_entry (pg_client env)) rows []) (\<lambda>schemas.
      io_return (JArr schemas))))
     sp (JArr (map (schema_doc env sp) (sql_schemas (catalog_of env))))"
proof -
  have q: "yields (query (pg_client env) Q_schemas []) sp (sql_schemas (catalog_of env))"
    by (rule yields_query) (simp_all add: pg_rows_def)
  have loop: "yields (for_rows (schema_entry (pg_client env)) rows []) sp
      ([] @ map (schema_doc env sp) rows)" for rows
    by (rule yields_for_rows) (rule yields_schema_entry)
  show ?thesis
    using loop by (auto intro!: yields_bind [OF q] yields_bind [OF _ yields_return])
qed

lemma getSchemas_unfold:
  "getSchemas c db =
     io_bind (set_search_path c) (\<lambda>_.
     io_bind (query c Q_schemas []) (\<lambda>rows.
     io_bind (for_rows (schema_entry c) rows []) (\<lambda>schemas.
     io_return (JArr schemas))))"
  by (simp add: getSchemas_def)

lemma getSchemas_pg:
  assumes "fst (getSchemas (pg_client env) db w) = Inr v"
  shows "v = JArr (map (schema_doc env (path_in_effect env (session w))) (sql_schemas (catalog_of env)))"
proof -
  obtain w' where blk: "set_search_path (pg_client env) w = (Inr (), w')"
    using set_path_returns [of "pg_client env" w] by (cases "set_search_path (pg_client env) w") auto
  then have s': "session w' = path_in_effect env (session w)"
    using set_path_session [of env w] by simp
  from assms blk show ?thesis
    using yields_schemas_loop [of env "path_in_effect env (session w)"] s'
    by (simp add: getSchemas_unfold io_bind_def yields_def)
qed

lemma getSchemas_pg_session:
  "session (snd (getSchemas (pg_client env) db w)) = path_in_effect env (session w)"
proof -
  obtain w' where blk: "set_search_path (pg_client env) w = (Inr (), w')"
    using set_path_returns [of "pg_client env" w] by (cases "set_search_path (pg_client env) w") auto
  then have s': "session w' = path_in_effect env (session w)"
    using set_path_session [of env w] by simp
  from blk show ?thesis
    using yields_schemas_loop [of env "path_in_effect env (session w)"] s'
    by (simp add: getSchemas_unfold io_bind_def yields_def)
qed

lemma extractStructure_document:
  assumes "fst (extractStructure (pg_client env) w) = Inr d"
  shows "d = document env (path_in_effect env (session w))"
proof -
  let ?c = "pg_client env"
  obtain r1 w1 where q: "query ?c Q_current_database [] w = (r1, w1)"
    by (cases "query ?c Q_current_database [] w")
  from assms q obtain rows where r1: "r1 = Inr rows"
    by (cases r1) (auto simp: extractStructure_def try_catch_def io_bind_def emit_def io_throw_def)
  from q r1 have rows: "rows = sql_current_database (catalog_of env)" and s1: "session w1 = session w"
    by (auto simp: query_def pg_client_def pg_rows_def pg_effect_def split: option.splits)
  have db: "get_prop (first_row rows) ''db_name'' = (Inr (JStr (current_database (catalog_of env))) :: 'a js_error + jsval)"
    by (simp add: rows sql_current_database_def first_row_def get_prop_def nullish_def prop_of_def)
  let ?db = "JStr (current_database (catalog_of env))"
  let ?w2 = "w1\<lparr>events := events w1 @ [ConsoleLog ?db]\<rparr>"
  obtain r3 w3 where g: "getSchemas ?c ?db ?w2 = (r3, w3)"
    by (cases "getSchemas ?c ?db ?w2")
  from assms q r1 db g obtain schemas where r3: "r3 = Inr schemas"
    and d: "d = JObj [(''databases'', JArr [JObj [(''name'', ?db), (''schemas'', schemas)]])]"
    by (cases r3) (auto simp: extractStructure_def try_catch_def io_bind_def emit_def io_throw_def
        io_lift_def io_return_def)
  from g r3 have "schemas = JArr (map (schema_doc env (path_in_effect env (session ?w2))) (sql_schemas (catalog_of env)))"
    using getSchemas_pg [of env ?db ?w2 schemas] by simp
  with d s1 show ?thesis by (simp add: document_def)
qed

subsection \<open>Results depend on the connection state alone\<close>

lemma determined_return: "determined (io_return x)"
  by (simp add: determined_def io_return_def)

lemma determined_throw: "determined (io_throw err)"
  by (simp add: determined_def io_throw_def)

lemma determined_lift: "determined (io_lift r)"
  by (simp add: determined_def io_lift_def)

lemma determined_emit: "determined (emit ev)"
  by (simp add: determined_def emit_def)

lemma determined_query: "determined (query c q ps)"
  by (auto simp: determined_def query_def split: prod.splits sum.splits)

lemma determined_bind:
  fixes m :: "('a, 's, 'e) io" and f :: "'a \<Rightarrow> ('b, 's, 'e) io"
  assumes m: "determined m" and f: "\<And>x. determined (f x)"
  shows "determined (io_bind m f)"
  unfolding determined_def
proof (intro allI impI)
  fix w1 w2 :: "('s, 'e) world"
  assume eq: "session w1 = session w2"
  obtain r1 u1 where m1: "m w1 = (r1, u1)" by (cases "m w1")
  obtain r2 u2 where m2: "m w2 = (r2, u2)" by (cases "m w2")
  from m [unfolded determined_def, rule_format, OF eq] m1 m2
  have r: "r1 = r2" and u: "session u1 = session u2"
    by simp_all
  show "fst (io_bind m f w1) = fst (io_bind m f w2) \<and>
        session (snd (io_bind m f w1)) = session (snd (io_bind m f w2))"
  proof (cases r1)
    case (Inl err)
    with r u m1 m2 show ?thesis by (auto simp: io_bind_def)
  next
    case (Inr x)
    with r m1 m2 have "io_bind m f w1 = f x u1" "io_bind m f w2 = f x u2"
      by (auto simp: io_bind_def)
    with f [of x, unfolded determined_def, rule_format, OF u] show ?thesis by simp
  qed
qed

lemma determined_try_catch:
  fixes m :: "('a, 's, 'e) io"
  assumes m: "determined m" and h: "\<And>err. determined (h err)"
  shows "determined (try_catch m h)"
  unfolding determined_def
proof (intro allI impI)
  fix w1 w2 :: "('s, 'e) world"
  assume eq: "session w1 = session w2"
  obtain r1 u1 where m1: "m w1 = (r1, u1)" by (cases "m w1")
  obtain r2 u2 where m2: "m w2 = (r2, u2)" by (cases "m w2")
  from m [unfolded determined_def, rule_format, OF eq] m1 m2
  have r: "r1 = r2" and u: "session u1 = session u2"
    by simp_all
  show "fst (try_catch m h w1) = fst (try_catch m h w2) \<and>
        session (snd (try_catch m h w1)) = session (snd (try_catch m h w2))"
  proof (cases r1)
    case (Inr x)
    with r u m1 m2 show ?thesis by (auto simp: try_catch_def)
  next
    case (Inl err)
    with r m1 m2 have "try_catch m h w1 = h err u1" "try_catch m h w2 = h err u2"
      by (auto simp: try_catch_def)
    with h [of err, unfolded determined_def, rule_format, OF u] show ?thesis by simp
  qed
qed

lemma determined_for_rows:
  assumes body: "\<And>row. determined (body row)"
  shows "determined (for_rows body rows out)"
proof (induction rows arbitrary: out)
  case Nil
  show ?case by (simp add: determined_return)
next
  case (Cons row rows)
  show ?case
    unfolding for_rows.simps
    by (rule determined_bind [OF body]) (rule Cons.IH)
qed

lemmas determined_intros =
  determined_return determined_throw determined_lift determined_emit determined_query
  determined_bind determined_try_catch determined_for_rows


lemma determined_table_entry: "determined (table_entry c sn row)"
  unfolding table_entry_def getColumns_def getConstraints_def getForeignKeys_def
    getTriggers_def getIndexes_def
  by (intro determined_intros)

lemma determined_getTables: "determined (getTables c sn)"
  unfolding getTables_def by (intro determined_intros determined_table_entry)

lemma determined_schema_entry: "determined (schema_entry c row)"
  unfolding schema_entry_def getViews_def getFunctions_def
  by (intro determined_intros determined_getTables)

lemma determined_getSchemas: "determined (getSchemas c db)"
  unfolding getSchemas_def set_search_path_def by (intro determined_intros determined_schema_entry)

lemma determined_extractStructure: "determined (extractStructure c)"
  unfolding extractStructure_def by (intro determined_intros determined_getSchemas)

lemma determined_schemas_loop:
  "determined
     (io_bind (query c Q_schemas []) (\<lambda>rows.
      io_bind (for_rows (schema_entry c) rows []) (\<lambda>schemas.
      io_return (JArr schemas))))"
  by (intro determined_intros determined_schema_entry)

lemma getSchemas_path:
  assumes "path_in_effect env (session wa) = path_in_effect env (session wb)"
  shows "fst (getSchemas (pg_client env) db wa) = fst (getSchemas (pg_client env) db wb)"
proof -
  let ?c = "pg_client env"
  obtain wa' where a: "set_search_path ?c wa = (Inr (), wa')"
    using set_path_returns [of ?c wa] by (cases "set_search_path ?c wa") auto
  obtain wb' where b: "set_search_path ?c wb = (Inr (), wb')"
    using set_path_returns [of ?c wb] by (cases "set_search_path ?c wb") auto
  from a b assms have "session wa' = session wb'"
    using set_path_session [of env wa] set_path_session [of env wb] by simp
  with determined_schemas_loop [of ?c, unfolded determined_def, rule_format, of wa' wb']
  show ?thesis
    using a b by (simp add: getSchemas_unfold io_bind_def)
qed

lemma current_database_pg:
  "query (pg_client env) Q_current_database [] w =
     (case rejects env Q_current_database [] of
        Some e \<Rightarrow> (Inl (Rejected e), w\<lparr>events := events w @ [Sent Q_current_database [] (Some e)]\<rparr>)
      | None \<Rightarrow> (Inr (sql_current_database (catalog_of env)),
                 w\<lparr>events := events w @ [Sent Q_current_database [] None]\<rparr>))"
  by (simp add: query_def pg_client_def pg_rows_def pg_effect_def split: option.splits)

lemma extractStructure_path:
  assumes "path_in_effect env (session wa) = path_in_effect env (session wb)"
  shows "fst (extractStructure (pg_client env) wa) = fst (extractStructure (pg_client env) wb)"
proof (cases "rejects env Q_current_database []")
  case (Some e)
  then show ?thesis
    by (simp add: extractStructure_def try_catch_def io_bind_def emit_def io_throw_def
        current_database_pg)
next
  case None
  let ?db = "JStr (current_database (catalog_of env))"
  have db: "get_prop (first_row (sql_current_database (catalog_of env))) ''db_name'' =
      (Inr ?db :: 'a js_error + jsval)"
    by (simp add: sql_current_database_def first_row_def get_prop_def nullish_def prop_of_def)
  let ?wa = "wa\<lparr>events := events wa @ [Sent Q_current_database [] None, ConsoleLog ?db]\<rparr>"
  let ?wb = "wb\<lparr>events := events wb @ [Sent Q_current_database [] None, ConsoleLog ?db]\<rparr>"
  have "fst (getSchemas (pg_client env) ?db ?wa) = fst (getSchemas (pg_client env) ?db ?wb)"
    by (rule getSchemas_path) (simp add: assms)
  then show ?thesis
    using None db
    by (auto simp: extractStructure_def try_catch_def io_bind_def emit_def io_throw_def
        io_lift_def io_return_def current_database_pg split: prod.splits sum.splits)
qed

lemma extractStructure_session:
  "session (snd (extractStructure (pg_client env) w)) = session w \<or>
   session (snd (extractStructure (pg_client env) w)) = path_in_effect env (session w)"
proof (cases "rejects env Q_current_database []")
  case (Some e)
  then show ?thesis
    by (simp add: extractStructure_def try_catch_def io_bind_def emit_def io_throw_def
        current_database_pg)
next
  case None
  let ?db = "JStr (current_database (catalog_of env))"
  have db: "get_prop (first_row (sql_current_database (catalog_of env))) ''db_name'' =
      (Inr ?db :: 'a js_error + jsval)"
    by (simp add: sql_current_database_def first_row_def get_prop_def nullish_def prop_of_def)
  let ?w = "w\<lparr>events := events w @ [Sent Q_current_database [] None, ConsoleLog ?db]\<rparr>"
  have "session (snd (getSchemas (pg_client env) ?db ?w)) = path_in_effect env (session w)"
    using getSchemas_pg_session [of env ?db ?w] by simp
  then show ?thesis
    using None db
    by (auto simp: extractStructure_def try_catch_def io_bind_def emit_def io_throw_def
        io_lift_def io_return_def current_database_pg split: prod.splits sum.splits)
qed

lemma path_in_effect_idem: "path_in_effect env (path_in_effect env sp) = path_in_effect env sp"
  by (simp add: path_in_effect_def split: option.splits)


subsection \<open>A server that rejects nothing returns the document\<close>

lemma returns_return: "returns (io_return x) sp x"
  by (simp add: returns_def io_return_def)

lemma returns_bind:
  fixes m :: "('a, 's, 'e) io" and f :: "'a \<Rightarrow> ('b, 's, 'e) io"
  assumes "returns m sp x" and "returns (f x) sp y"
  shows "returns (io_bind m f) sp y"
  unfolding returns_def
proof (intro allI impI)
  fix w :: "('s, 'e) world"
  assume w: "session w = sp"
  obtain r w' where mw: "m w = (r, w')" by (cases "m w")
  from assms(1) w mw have s': "session w' = sp" and r: "r = Inr x"
    by (auto simp: returns_def)
  from r mw have "io_bind m f w = f x w'" by (simp add: io_bind_def)
  with assms(2) s' show "session (snd (io_bind m f w)) = sp \<and> fst (io_bind m f w) = Inr y"
    by (simp add: returns_def)
qed

lemma returns_lift: "returns (io_lift (Inr x)) sp x"
  by (simp add: returns_def io_lift_def)

lemma returns_for_rows:
  "(\<And>row. row \<in> set rows \<Longrightarrow> returns (body row) sp (g row)) \<Longrightarrow>
   returns (for_rows body rows out) sp (out @ map g rows)"
proof (induction rows arbitrary: out)
  case Nil
  show ?case by (simp add: returns_return)
next
  case (Cons row rows)
  have "returns (for_rows body rows (out @ [g row])) sp ((out @ [g row]) @ map g rows)"
    by (rule Cons.IH) (simp add: Cons.prems)
  then show ?case
    using Cons.prems [of row] by (auto intro: returns_bind)
qed

lemma returns_query:
  "q \<noteq> Q_set_search_path \<Longrightarrow> rejects env q ps = None \<Longrightarrow> pg_rows env sp q ps = Some rows \<Longrightarrow>
   returns (query (pg_client env) q ps) sp rows"
  by (auto simp: returns_def query_def pg_client_def pg_effect_def split: option.splits)

lemma map_rows_map: "(\<And>row. row \<in> set rows \<Longrightarrow> f row = Inr (g row)) \<Longrightarrow> map_rows f rows = Inr (map g rows)"
  by (induction rows) auto

lemma returns_getColumns:
  "accepts env \<Longrightarrow> returns (getColumns (pg_client env) sn tn) sp
     (JArr (sql_columns (catalog_of env) (param env sn) (param env tn)))"
  unfolding getColumns_def
  by (rule returns_bind [OF returns_query returns_return]) (simp_all add: pg_rows_def accepts_def)

lemma returns_getConstraints:
  "accepts env \<Longrightarrow> returns (getConstraints (pg_client env) sn tn) sp
     (JArr (sql_constraints (catalog_of env) sp (param env sn) (param env tn)))"
  unfolding getConstraints_def
  by (rule returns_bind [OF returns_query returns_return]) (simp_all add: pg_rows_def accepts_def)

lemma returns_getForeignKeys:
  "accepts env \<Longrightarrow> returns (getForeignKeys (pg_client env) sn tn) sp
     (JArr (sql_foreign_keys (catalog_of env) (param env sn) (param env tn)))"
  unfolding getForeignKeys_def
  by (rule returns_bind [OF returns_query returns_return]) (simp_all add: pg_rows_def accepts_def)

lemma returns_getTriggers:
  "accepts env \<Longrightarrow> returns (getTriggers (pg_client env) sn tn) sp
     (JArr (sql_triggers (catalog_of env) sp (param env sn) (param env tn)))"
  unfolding getTriggers_def
  by (rule returns_bind [OF returns_query returns_return]) (simp_all add: pg_rows_def accepts_def)

lemma returns_getIndexes:
  "accepts env \<Longrightarrow> returns (getIndexes (pg_client env) sn tn) sp
     (JArr (sql_indexes (catalog_of env) (param env sn) (param env tn)))"
  unfolding getIndexes_def
  by (rule returns_bind [OF returns_query returns_return]) (simp_all add: pg_rows_def accepts_def)

lemma returns_get_prop: "\<not> nullish row \<Longrightarrow> returns (io_lift (get_prop row k)) sp (prop_of row k)"
  by (simp add: get_prop_def returns_lift)

lemma returns_table_entry:
  "accepts env \<Longrightarrow> \<not> nullish row \<Longrightarrow>
   returns (table_entry (pg_client env) sn row) sp (table_doc env sp sn row)"
  unfolding table_entry_def table_doc_def Let_def
  by (intro returns_bind [OF returns_get_prop] returns_bind [OF returns_getColumns]
      returns_bind [OF returns_getConstraints] returns_bind [OF returns_getForeignKeys]
      returns_bind [OF returns_getTriggers] returns_bind [OF returns_getIndexes] returns_return)

lemma sql_tables_rows: "row \<in> set (sql_tables cat p) \<Longrightarrow> \<not> nullish row"
  by (auto simp: sql_tables_def nullish_def)

lemma sql_schemas_rows: "row \<in> set (sql_schemas cat) \<Longrightarrow> \<not> nullish row"
  by (auto simp: sql_schemas_def nullish_def)

lemma sql_views_rows: "row \<in> set (sql_views cat p) \<Longrightarrow> \<not> nullish row"
  by (auto simp: sql_views_def nullish_def)

lemma sql_functions_rows: "row \<in> set (sql_functions cat sp p) \<Longrightarrow> \<not> nullish row"
  by (auto simp: sql_functions_def function_row_def nullish_def)

lemma returns_getTables:
  assumes "accepts env"
  shows "returns (getTables (pg_client env) sn) sp
     (JArr (map (table_doc env sp sn) (sql_tables (catalog_of env) (param env sn))))"
proof -
  let ?rows = "sql_tables (catalog_of env) (param env sn)"
  have q: "returns (query (pg_client env) Q_tables [sn]) sp ?rows"
    using assms by (intro returns_query) (simp_all add: pg_rows_def accepts_def)
  have loop: "returns (for_rows (table_entry (pg_client env) sn) ?rows []) sp
      ([] @ map (table_doc env sp sn) ?rows)"
    by (rule returns_for_rows) (rule returns_table_entry [OF assms sql_tables_rows])
  show ?thesis
    unfolding getTables_def
    using loop by (auto intro!: returns_bind [OF q] returns_bind [OF _ returns_return])
qed

lemma returns_getViews:
  assumes "accepts env"
  shows "returns (getViews (pg_client env) sn) sp
     (JArr (map view_object (sql_views (catalog_of env) (param env sn))))"
proof -
  let ?rows = "sql_views (catalog_of env) (param env sn)"
  have q: "returns (query (pg_client env) Q_views [sn]) sp ?rows"
    using assms by (intro returns_query) (simp_all add: pg_rows_def accepts_def)
  have "map_rows view_entry ?rows = (Inr (map view_object ?rows) :: 'a js_error + jsval list)"
    by (rule map_rows_map) (simp add: view_entry_def sql_views_rows)
  then have m: "returns (io_lift (map_rows view_entry ?rows :: 'a js_error + jsval list)) sp (map view_object ?rows)"
    by (simp add: returns_lift)
  show ?thesis
    unfolding getViews_def
    by (intro returns_bind [OF q] returns_bind [OF m] returns_return)
qed

lemma returns_getFunctions:
  assumes "accepts env"
  shows "returns (getFunctions (pg_client env) sn) sp
     (JArr (map function_object (sql_functions (catalog_of env) sp (param env sn))))"
proof -
  let ?rows = "sql_functions (catalog_of env) sp (param env sn)"
  have q: "returns (query (pg_client env) Q_functions [sn]) sp ?rows"
    using assms by (intro returns_query) (simp_all add: pg_rows_def accepts_def)
  have "map_rows function_entry ?rows = (Inr (map function_object ?rows) :: 'a js_error + jsval list)"
    by (rule map_rows_map) (simp add: function_entry_def sql_functions_rows)
  then have m: "returns (io_lift (map_rows function_entry ?rows :: 'a js_error + jsval list)) sp (map function_object ?rows)"
    by (simp add: returns_lift)
  show ?thesis
    unfolding getFunctions_def
    by (intro returns_bind [OF q] returns_bind [OF m] returns_return)
qed

lemma returns_schema_entry:
  "accepts env \<Longrightarrow> \<not> nullish row \<Longrightarrow>
   returns (schema_entry (pg_client env) row) sp (schema_doc env sp row)"
  unfolding schema_entry_def schema_doc_def Let_def
  by (intro returns_bind [OF returns_get_prop] returns_bind [OF returns_getTables]
      returns_bind [OF returns_getViews] returns_bind [OF returns_getFunctions] returns_return)

lemma returns_schemas_loop:
  assumes "accepts env"
  shows "returns
     (io_bind (query (pg_client env) Q_schemas []) (\<lambda>rows.
      io_bind (for_rows (schema_entry (pg_client env)) rows []) (\<lambda>schemas.
      io_return (JArr schemas))))
     sp (JArr (map (schema_doc env sp) (sql_schemas (catalog_of env))))"
proof -
  let ?rows = "sql_schemas (catalog_of env)"
  have q: "returns (query (pg_client env) Q_schemas []) sp ?rows"
    using assms by (intro returns_query) (simp_all add: pg_rows_def accepts_def)
  have loop: "returns (for_rows (schema_entry (pg_client env)) ?rows []) sp
      ([] @ map (schema_doc env sp) ?rows)"
    by (rule returns_for_rows) (rule returns_schema_entry [OF assms sql_schemas_rows])
  show ?thesis
    using loop by (auto intro!: returns_bind [OF q] returns_bind [OF _ returns_return])
qed

lemma getSchemas_succeeds:
  assumes "accepts env"
  shows "fst (getSchemas (pg_client env) db w) =
    Inr (JArr (map (schema_doc env (path_in_effect env (session w))) (sql_schemas (catalog_of env))))"
proof -
  obtain w' where blk: "set_search_path (pg_client env) w = (Inr (), w')"
    using set_path_returns [of "pg_client env" w] by (cases "set_search_path (pg_client env) w") auto
  then have s': "session w' = path_in_effect env (session w)"
    using set_path_session [of env w] by simp
  from blk show ?thesis
    using returns_schemas_loop [OF assms, of "path_in_effect env (session w)"] s'
    by (simp add: getSchemas_unfold io_bind_def returns_def)
qed

lemma extractStructure_succeeds:
  assumes "accepts env"
  shows "fst (extractStructure (pg_client env) w) = Inr (document env (path_in_effect env (session w)))"
proof -
  from assms have None: "rejects env Q_current_database [] = None"
    by (simp add: accepts_def)
  let ?db = "JStr (current_database (catalog_of env))"
  have db: "get_prop (first_row (sql_current_database (catalog_of env))) ''db_name'' =
      (Inr ?db :: 'a js_error + jsval)"
    by (simp add: sql_current_database_def first_row_def get_prop_def nullish_def prop_of_def)
  let ?w = "w\<lparr>events := events w @ [Sent Q_current_database [] None, ConsoleLog ?db]\<rparr>"
  have "fst (getSchemas (pg_client env) ?db ?w) =
    Inr (JArr (map (schema_doc env (path_in_effect env (session w))) (sql_schemas (catalog_of env))))"
    using getSchemas_succeeds [OF assms, of ?db ?w] by simp
  then show ?thesis
    using None db
    by (auto simp: extractStructure_def try_catch_def io_bind_def emit_def io_throw_def
        io_lift_def io_return_def current_database_pg document_def split: prod.splits sum.splits)
qed

subsection \<open>Rejections in the event log\<close>

lemma outcome_Nil: "(\<And>e. r \<noteq> Inl (Rejected e)) \<Longrightarrow> outcome r []"
  by (auto simp: outcome_def split: sum.splits js_error.splits)

lemma traced_return: "traced (io_return x)"
  by (simp add: traced_def io_return_def outcome_def)

lemma traced_lift: "(\<And>e. r \<noteq> Inl (Rejected e)) \<Longrightarrow> traced (io_lift r)"
  by (simp add: traced_def io_lift_def outcome_Nil)

lemma traced_emit: "clean ev \<Longrightarrow> traced (emit ev)"
  by (simp add: traced_def emit_def outcome_def)

lemma traced_query: "q \<noteq> Q_set_search_path \<Longrightarrow> traced (query c q ps)"
  by (auto simp: traced_def query_def outcome_def clean_def split: prod.splits sum.splits)

lemma outcome_append:
  assumes "list_all clean new1" and "outcome r new2"
  shows "outcome r (new1 @ new2)"
proof (cases r)
  case (Inr v)
  with assms show ?thesis by (simp add: outcome_def)
next
  case (Inl err)
  show ?thesis
  proof (cases err)
    case TypeError
    with Inl assms show ?thesis by (simp add: outcome_def)
  next
    case (Rejected e)
    with Inl assms obtain pre q ps where "new2 = pre @ [Sent q ps (Some e)]"
      "q \<noteq> Q_set_search_path" "list_all clean pre"
      by (auto simp: outcome_def)
    with assms(1) have "new1 @ new2 = (new1 @ pre) @ [Sent q ps (Some e)] \<and>
        q \<noteq> Q_set_search_path \<and> list_all clean (new1 @ pre)"
      by simp
    with Inl Rejected show ?thesis
      unfolding outcome_def by (simp del: append_assoc)
  qed
qed

lemma traced_bind:
  fixes m :: "('a, 's, 'e) io" and f :: "'a \<Rightarrow> ('b, 's, 'e) io"
  assumes m: "traced m" and f: "\<And>x. traced (f x)"
  shows "traced (io_bind m f)"
  unfolding traced_def
proof
  fix w :: "('s, 'e) world"
  obtain r u where mw: "m w = (r, u)" by (cases "m w")
  from m [unfolded traced_def, rule_format, of w] mw
  obtain new1 where ev1: "events u = events w @ new1" and o1: "outcome r new1"
    by auto
  show "\<exists>new. events (snd (io_bind m f w)) = events w @ new \<and> outcome (fst (io_bind m f w)) new"
  proof (cases r)
    case (Inl err)
    with mw have "io_bind m f w = (Inl err, u)" by (simp add: io_bind_def)
    moreover from o1 Inl have "outcome (Inl err :: 'e js_error + 'b) new1"
      by (simp add: outcome_def)
    ultimately show ?thesis using ev1 by auto
  next
    case (Inr x)
    with mw have b: "io_bind m f w = f x u" by (simp add: io_bind_def)
    from f [of x, unfolded traced_def, rule_format, of u]
    obtain new2 where ev2: "events (snd (f x u)) = events u @ new2"
      and o2: "outcome (fst (f x u)) new2"
      by auto
    from o1 Inr have "list_all clean new1" by (simp add: outcome_def)
    then have "outcome (fst (f x u)) (new1 @ new2)" using o2 by (rule outcome_append)
    with b ev1 ev2 show ?thesis by auto
  qed
qed

lemma traced_for_rows:
  assumes body: "\<And>row. traced (body row)"
  shows "traced (for_rows body rows out)"
proof (induction rows arbitrary: out)
  case Nil
  show ?case by (simp add: traced_return)
next
  case (Cons row rows)
  show ?case
    unfolding for_rows.simps
    by (rule traced_bind [OF body]) (rule Cons.IH)
qed

lemma traced_set_search_path: "traced (set_search_path c)"
  by (auto simp: traced_def set_search_path_def try_catch_def io_bind_def query_def
      io_return_def emit_def outcome_def clean_def split: prod.splits sum.splits)

lemma get_prop_not_rejected: "get_prop v k \<noteq> Inl (Rejected e)"
  by (simp add: get_prop_def)

lemma map_rows_not_rejected:
  "(\<And>row. f row \<noteq> Inl (Rejected e)) \<Longrightarrow> map_rows f rows \<noteq> Inl (Rejected e)"
  by (induction rows) (auto split: sum.splits)

lemma view_entry_not_rejected: "view_entry row \<noteq> Inl (Rejected e)"
  by (simp add: view_entry_def)

lemma function_entry_not_rejected: "function_entry row \<noteq> Inl (Rejected e)"
  by (simp add: function_entry_def)

lemmas traced_intros =
  traced_return traced_emit traced_bind traced_for_rows traced_set_search_path

lemma traced_table_entry: "traced (table_entry c sn row)"
  unfolding table_entry_def getColumns_def getConstraints_def getForeignKeys_def
    getTriggers_def getIndexes_def
  by (intro traced_intros traced_query traced_lift get_prop_not_rejected) simp_all

lemma traced_getTables: "traced (getTables c sn)"
  unfolding getTables_def
  by (intro traced_intros traced_query traced_table_entry) simp

lemma traced_getViews: "traced (getViews c sn)"
  unfolding getViews_def
  by (intro traced_intros traced_query traced_lift map_rows_not_rejected
      view_entry_not_rejected) simp

lemma traced_getFunctions: "traced (getFunctions c sn)"
  unfolding getFunctions_def
  by (intro traced_intros traced_query traced_lift map_rows_not_rejected
      function_entry_not_rejected) simp

lemma traced_schema_entry: "traced (schema_entry c row)"
  unfolding schema_entry_def
  by (intro traced_intros traced_lift get_prop_not_rejected traced_getTables traced_getViews
      traced_getFunctions)

lemma traced_getSchemas: "traced (getSchemas c db)"
  unfolding getSchemas_def
  by (intro traced_intros traced_query traced_schema_entry) simp

lemma traced_extract_body:
  "traced
     (io_bind (query c Q_current_database []) (\<lambda>rows.
      io_bind (io_lift (get_prop (first_row rows) ''db_name'')) (\<lambda>currentDb.
      io_bind (emit (ConsoleLog currentDb)) (\<lambda>_.
      io_bind (getSchemas c currentDb) (\<lambda>schemas.
      io_return (JObj
        [(''databases'',
          JArr [JObj [(''name'', currentDb), (''schemas'', schemas)]])]))))))"
  by (intro traced_intros traced_query traced_lift get_prop_not_rejected traced_getSchemas)
    (simp_all add: clean_def)

lemma clean_rejected: "clean (Sent q ps (Some e)) \<longleftrightarrow> q = Q_set_search_path"
  by (simp add: clean_def)

lemma outcome_sound:
  assumes "outcome r new" and "Sent q ps (Some e) \<in> set new" and "q \<noteq> Q_set_search_path"
  shows "r = Inl (Rejected e)"
proof -
  from assms(2,3) have nc: "\<not> list_all clean new"
    using clean_rejected [of q ps e] by (auto simp: list_all_iff)
  with assms(1) obtain e' where r: "r = Inl (Rejected e')"
    by (auto simp: outcome_def split: sum.splits js_error.splits)
  with assms(1) obtain pre q' ps' where new: "new = pre @ [Sent q' ps' (Some e')]"
    and pre: "list_all clean pre"
    by (auto simp: outcome_def)
  from pre assms(3) have "Sent q ps (Some e) \<notin> set pre"
    by (auto simp: list_all_iff clean_rejected)
  with assms(2) new have "e = e'" by simp
  with r show ?thesis by simp
qed

lemma outcome_complete:
  assumes "outcome r new" and "r = Inl (Rejected e)"
  shows "\<exists>q ps. q \<noteq> Q_set_search_path \<and> Sent q ps (Some e) \<in> set new"
proof -
  from assms obtain pre q ps where "new = pre @ [Sent q ps (Some e)]" "q \<noteq> Q_set_search_path"
    by (auto simp: outcome_def)
  then have "q \<noteq> Q_set_search_path \<and> Sent q ps (Some e) \<in> set new" by simp
  then show ?thesis by blast
qed


subsection \<open>Runs on the example catalog\<close>

lemma shop_schemas:
  "sql_schemas shop_catalog =
     [JObj [(''schema_name'', JStr ''audit'')], JObj [(''schema_name'', JStr ''public'')]]"
  by (simp add: shop_catalog_def shop_namespace_def sql_schemas_def sql_like_def)

lemma shop_denied_sel:
  "catalog_of shop_denied = shop_catalog"
  "rejects shop_denied q ps =
     (if q = Q_set_search_path then Some ''permission denied to set parameter''
      else if q = Q_tables then Some ''permission denied for view tables''
      else None)"
  by (simp_all add: shop_denied_def shop_def)

lemma shop_current_database: "current_database shop_catalog = ''shop''"
  by (simp add: shop_catalog_def)

lemma shop_denied_run:
  "extractStructure (pg_client shop_denied) bare =
     (Inl (Rejected ''permission denied for view tables''),
      \<lparr>session = [],
       events =
         [Sent Q_current_database [] None,
          ConsoleLog (JStr ''shop''),
          Sent Q_set_search_path [] (Some ''permission denied to set parameter''),
          ConsoleWarn (Rejected ''permission denied to set parameter''),
          Sent Q_schemas [] None,
          Sent Q_tables [JStr ''audit''] (Some ''permission denied for view tables''),
          ConsoleError (Rejected ''permission denied for view tables'')]\<rparr>)"
  by (simp add: extractStructure_def getSchemas_def set_search_path_def schema_entry_def
      getTables_def try_catch_def io_bind_def io_return_def io_throw_def io_lift_def emit_def
      query_def pg_client_def pg_rows_def pg_effect_def shop_denied_sel start_def bare_def
      shop_schemas shop_current_database sql_current_database_def first_row_def get_prop_def
      nullish_def prop_of_def)


section \<open>Failures\<close>

text \<open>
  Claim C5. On any client, a run only appends to the event log, and: if a command other
  than the search-path command was rejected during the run, then the run ends in exactly
  that rejection (so no document is returned); conversely a run ends in a rejection only
  if a command other than the search-path command was rejected with it. A rejection of the
  search-path command is therefore never the outcome: on a PostgreSQL connection that
  rejects at most that command, the run returns the whole document, built under the search
  path the connection is left with. The search-path step itself never throws; when its
  command is rejected, what it leaves behind is the command and one warning on the
  console.
\<close>

theorem extraction_fails_with_the_rejection:
  "(\<exists>new. events (snd (extractStructure c w)) = events w @ new \<and>
      (\<forall>q ps e. Sent q ps (Some e) \<in> set new \<and> q \<noteq> Q_set_search_path \<longrightarrow>
         fst (extractStructure c w) = Inl (Rejected e)) \<and>
      (\<forall>e. fst (extractStructure c w) = Inl (Rejected e) \<longrightarrow>
         (\<exists>q ps. q \<noteq> Q_set_search_path \<and> Sent q ps (Some e) \<in> set new))) \<and>
   (accepts env \<longrightarrow>
      fst (extractStructure (pg_client env) w0) =
        Inr (document env (path_in_effect env (session w0)))) \<and>
   fst (set_search_path c w1) = Inr () \<and>
   (fst (c Q_set_search_path [] (session w1)) = Inl e1 \<longrightarrow>
      events (snd (set_search_path c w1)) =
        events w1 @ [Sent Q_set_search_path [] (Some e1), ConsoleWarn (Rejected e1)])"
proof
  let ?body = "io_bind (query c Q_current_database []) (\<lambda>rows.
      io_bind (io_lift (get_prop (first_row rows) ''db_name'')) (\<lambda>currentDb.
      io_bind (emit (ConsoleLog currentDb)) (\<lambda>_.
      io_bind (getSchemas c currentDb) (\<lambda>schemas.
      io_return (JObj
        [(''databases'',
          JArr [JObj [(''name'', currentDb), (''schemas'', schemas)]])])))))"
  obtain r u where body: "?body w = (r, u)" by (cases "?body w")
  from traced_extract_body [of c, unfolded traced_def, rule_format, of w] body
  obtain new where ev: "events u = events w @ new" and out: "outcome r new"
    by auto
  show "\<exists>new. events (snd (extractStructure c w)) = events w @ new \<and>
      (\<forall>q ps e. Sent q ps (Some e) \<in> set new \<and> q \<noteq> Q_set_search_path \<longrightarrow>
         fst (extractStructure c w) = Inl (Rejected e)) \<and>
      (\<forall>e. fst (extractStructure c w) = Inl (Rejected e) \<longrightarrow>
         (\<exists>q ps. q \<noteq> Q_set_search_path \<and> Sent q ps (Some e) \<in> set new))"
  proof (cases r)
    case (Inr d)
    with body have run: "extractStructure c w = (Inr d, u)"
      by (simp add: extractStructure_def try_catch_def)
    show ?thesis
    proof (rule exI [where x = new], intro conjI allI impI)
      show "events (snd (extractStructure c w)) = events w @ new"
        using run ev by simp
    next
      fix q ps e
      assume "Sent q ps (Some e) \<in> set new \<and> q \<noteq> Q_set_search_path"
      then have "Sent q ps (Some e) \<in> set new" and "q \<noteq> Q_set_search_path" by auto
      with out have "r = Inl (Rejected e)" by (rule outcome_sound)
      with Inr show "fst (extractStructure c w) = Inl (Rejected e)" by simp
    next
      fix e
      assume "fst (extractStructure c w) = Inl (Rejected e)"
      with run show "\<exists>q ps. q \<noteq> Q_set_search_path \<and> Sent q ps (Some e) \<in> set new"
        by simp
    qed
  next
    case (Inl err)
    with body have run: "extractStructure c w =
        (Inl err, u\<lparr>events := events u @ [ConsoleError err]\<rparr>)"
      by (simp add: extractStructure_def try_catch_def io_bind_def emit_def io_throw_def)
    show ?thesis
    proof (rule exI [where x = "new @ [ConsoleError err]"], intro conjI allI impI)
      show "events (snd (extractStructure c w)) = events w @ (new @ [ConsoleError err])"
        using run ev by simp
    next
      fix q ps e
      assume "Sent q ps (Some e) \<in> set (new @ [ConsoleError err]) \<and> q \<noteq> Q_set_search_path"
      then have "Sent q ps (Some e) \<in> set new" and "q \<noteq> Q_set_search_path" by auto
      with out have "r = Inl (Rejected e)" by (rule outcome_sound)
      with Inl run show "fst (extractStructure c w) = Inl (Rejected e)" by simp
    next
      fix e
      assume "fst (extractStructure c w) = Inl (Rejected e)"
      with run Inl have "r = Inl (Rejected e)" by simp
      with out have "\<exists>q ps. q \<noteq> Q_set_search_path \<and> Sent q ps (Some e) \<in> set new"
        by (rule outcome_complete)
      then show "\<exists>q ps. q \<noteq> Q_set_search_path \<and> Sent q ps (Some e) \<in> set (new @ [ConsoleError err])"
        by auto
    qed
  qed
next
  have "fst (c Q_set_search_path [] (session w1)) = Inl e1 \<longrightarrow>
      events (snd (set_search_path c w1)) =
        events w1 @ [Sent Q_set_search_path [] (Some e1), ConsoleWarn (Rejected e1)]"
    by (auto simp: set_search_path_def try_catch_def io_bind_def query_def emit_def
        split: prod.splits sum.splits)
  then show "(accepts env \<longrightarrow>
      fst (extractStructure (pg_client env) w0) =
        Inr (document env (path_in_effect env (session w0)))) \<and>
   fst (set_search_path c w1) = Inr () \<and>
   (fst (c Q_set_search_path [] (session w1)) = Inl e1 \<longrightarrow>
      events (snd (set_search_path c w1)) =
        events w1 @ [Sent Q_set_search_path [] (Some e1), ConsoleWarn (Rejected e1)])"
    by (simp add: extractStructure_succeeds set_path_returns)
qed

theorem extraction_fails_with_the_rejection_witness:
  "fst (extractStructure (pg_client shop_denied) bare) =
     Inl (Rejected ''permission denied for view tables'') \<and>
   events (snd (extractStructure (pg_client shop_denied) bare)) =
     [Sent Q_current_database [] None,
      ConsoleLog (JStr ''shop''),
      Sent Q_set_search_path [] (Some ''permission denied to set parameter''),
      ConsoleWarn (Rejected ''permission denied to set parameter''),
      Sent Q_schemas [] None,
      Sent Q_tables [JStr ''audit''] (Some ''permission denied for view tables''),
      ConsoleError (Rejected ''permission denied for view tables'')] \<and>
   accepts shop_no_set \<and>
   fst (extractStructure (pg_client shop_no_set) bare) = Inr (document shop_no_set [])"
proof -
  note c = extraction_fails_with_the_rejection [of "pg_client shop_denied" bare shop_no_set bare]
  from conjunct1 [OF c]
  obtain new where ev: "events (snd (extractStructure (pg_client shop_denied) bare)) =
      events bare @ new"
    and rej0: "\<forall>q ps e. Sent q ps (Some e) \<in> set new \<and> q \<noteq> Q_set_search_path \<longrightarrow>
      fst (extractStructure (pg_client shop_denied) bare) = Inl (Rejected e)"
    by (elim exE conjE)
  from rej0 have rej: "\<And>q ps e. Sent q ps (Some e) \<in> set new \<Longrightarrow> q \<noteq> Q_set_search_path \<Longrightarrow>
      fst (extractStructure (pg_client shop_denied) bare) = Inl (Rejected e)"
    by blast
  from conjunct1 [OF conjunct2 [OF c]]
  have ok: "accepts shop_no_set \<Longrightarrow>
      fst (extractStructure (pg_client shop_no_set) bare) =
        Inr (document shop_no_set (path_in_effect shop_no_set (session bare)))"
    by (rule mp)
  from ev [unfolded shop_denied_run]
  have "Sent Q_tables [JStr ''audit''] (Some ''permission denied for view tables'') \<in> set new"
    by (auto simp: start_def bare_def)
  then have 1: "fst (extractStructure (pg_client shop_denied) bare) =
     Inl (Rejected ''permission denied for view tables'')"
    by (rule rej) simp
  have 2: "accepts shop_no_set"
    by (simp add: accepts_def shop_no_set_def shop_def)
  have "path_in_effect shop_no_set (session bare) = []"
    by (simp add: path_in_effect_def shop_no_set_def shop_def start_def bare_def)
  with ok [OF 2] have 3: "fst (extractStructure (pg_client shop_no_set) bare) = Inr (document shop_no_set [])"
    by simp
  from 1 2 3 show ?thesis by (simp add: shop_denied_run)
qed


section \<open>Running twice\<close>

text \<open>
  Claim C6. On a PostgreSQL connection over a fixed catalog, with a server whose
  rejections are a function of the command, a second run of \<^verbatim>\<open>extractStructure\<close> on the
  connection as the first run left it has the same outcome as the first run: the same
  document, or the same error. (The first run may change the search path of the session;
  the model takes the answer of \<^verbatim>\<open>current_database()\<close> not to depend on it.)
\<close>

theorem extractStructure_twice:
  assumes first: "extractStructure (pg_client env) w = (r1, w1)"
    and second: "extractStructure (pg_client env) w1 = (r2, w2)"
  shows "r1 = r2"
proof -
  from extractStructure_session [of env w] first
  have "path_in_effect env (session w1) = path_in_effect env (session w)"
    by (auto simp: path_in_effect_idem)
  then have "fst (extractStructure (pg_client env) w1) = fst (extractStructure (pg_client env) w)"
    by (rule extractStructure_path)
  with first second show ?thesis by simp
qed

theorem extractStructure_twice_witness:
  "fst (extractStructure (pg_client shop) bare) = Inr (document shop [''$user'', ''public'']) \<and>
   fst (extractStructure (pg_client shop) (snd (extractStructure (pg_client shop) bare))) =
     Inr (document shop [''$user'', ''public''])"
proof -
  have a: "accepts shop" by (simp add: accepts_def shop_def)
  have p: "path_in_effect shop (session bare) = [''$user'', ''public'']"
    by (simp add: path_in_effect_def shop_def start_def bare_def)
  have 1: "fst (extractStructure (pg_client shop) bare) = Inr (document shop [''$user'', ''public''])"
    using extractStructure_succeeds [OF a, of bare] p by simp
  have "fst (extractStructure (pg_client shop) bare) =
      fst (extractStructure (pg_client shop) (snd (extractStructure (pg_client shop) bare)))"
    by (rule extractStructure_twice [OF prod.collapse [symmetric] prod.collapse [symmetric]])
  with 1 show ?thesis by simp
qed

section \<open>Reading the document of a run\<close>

lemma children_JObj [simp]:
  "children k (JObj kvs) = (case map_of kvs k of Some (JArr xs) \<Rightarrow> xs | _ \<Rightarrow> [])"
  by (simp add: children_def elems_def prop_of_def split: option.splits jsval.splits)

lemma doc_schemas_document:
  "doc_schemas (document env sp) = map (schema_doc env sp) (sql_schemas (catalog_of env))"
  by (simp add: doc_schemas_def document_def)

lemma schema_doc_tables:
  "children ''tables'' (schema_doc env sp row) =
     map (table_doc env sp (prop_of row ''schema_name''))
       (sql_tables (catalog_of env) (param env (prop_of row ''schema_name'')))"
  by (simp add: schema_doc_def Let_def)

lemma schema_doc_views:
  "children ''views'' (schema_doc env sp row) =
     map view_object (sql_views (catalog_of env) (param env (prop_of row ''schema_name'')))"
  by (simp add: schema_doc_def Let_def)

lemma schema_doc_functions:
  "children ''functions'' (schema_doc env sp row) =
     map function_object
       (sql_functions (catalog_of env) sp (param env (prop_of row ''schema_name'')))"
  by (simp add: schema_doc_def Let_def)

lemma schema_doc_name:
  "prop_of (schema_doc env sp row) ''name'' = prop_of row ''schema_name''"
  by (simp add: schema_doc_def Let_def prop_of_def)

lemma table_doc_name:
  "prop_of (table_doc env sp sn row) ''name'' = prop_of row ''table_name''"
  by (simp add: table_doc_def Let_def prop_of_def)

lemma table_doc_columns:
  "children ''columns'' (table_doc env sp sn row) =
     sql_columns (catalog_of env) (param env sn) (param env (prop_of row ''table_name''))"
  by (simp add: table_doc_def Let_def)

lemma table_doc_constraints:
  "children ''constraints'' (table_doc env sp sn row) =
     sql_constraints (catalog_of env) sp (param env sn) (param env (prop_of row ''table_name''))"
  by (simp add: table_doc_def Let_def)

lemma table_doc_foreignKeys:
  "children ''foreignKeys'' (table_doc env sp sn row) =
     sql_foreign_keys (catalog_of env) (param env sn) (param env (prop_of row ''table_name''))"
  by (simp add: table_doc_def Let_def)

lemma table_doc_triggers:
  "children ''triggers'' (table_doc env sp sn row) =
     sql_triggers (catalog_of env) sp (param env sn) (param env (prop_of row ''table_name''))"
  by (simp add: table_doc_def Let_def)

lemma table_doc_indexes:
  "children ''indexes'' (table_doc env sp sn row) =
     sql_indexes (catalog_of env) (param env sn) (param env (prop_of row ''table_name''))"
  by (simp add: table_doc_def Let_def)

lemma doc_schemas_cases:
  assumes "s \<in> set (doc_schemas (document env sp))"
  obtains row where "row \<in> set (sql_schemas (catalog_of env))" and "s = schema_doc env sp row"
  using assms by (auto simp: doc_schemas_document)

lemma doc_tables_cases:
  assumes "t \<in> set (doc_tables (document env sp))"
  obtains sn row where "t = table_doc env sp sn row"
    and "row \<in> set (sql_tables (catalog_of env) (param env sn))"
  using assms by (auto simp: doc_tables_def doc_schemas_document schema_doc_tables)

section \<open>The queries, relation by relation\<close>

subsection \<open>LIKE with a literal between two wildcards\<close>

lemma any_suffix_iff: "any_suffix P s \<longleftrightarrow> (\<exists>t. suffix t s \<and> P t)"
proof (induction s)
  case Nil
  show ?case by simp
next
  case (Cons c s)
  show ?case by (auto simp: Cons.IH suffix_Cons)
qed

lemma like_literal:
  assumes "\<forall>c\<in>set lit. c \<noteq> CHR ''%'' \<and> c \<noteq> CHR ''_'' \<and> c \<noteq> CHR 0x5C"
  shows "like_pattern (lit @ p) s \<longleftrightarrow> (\<exists>r. s = lit @ r \<and> like_pattern p r)"
  using assms
proof (induction lit arbitrary: s)
  case Nil
  show ?case by simp
next
  case (Cons c lit)
  then show ?case by (cases s) auto
qed

lemma like_percent: "any_suffix (like_pattern []) s"
  by (auto simp: any_suffix_iff)

lemma like_contains:
  assumes "\<forall>c\<in>set lit. c \<noteq> CHR ''%'' \<and> c \<noteq> CHR ''_'' \<and> c \<noteq> CHR 0x5C"
  shows "sql_like s (CHR ''%'' # lit @ ''%'') \<longleftrightarrow> sublist lit s"
proof -
  have "sql_like s (CHR ''%'' # lit @ ''%'') \<longleftrightarrow> (\<exists>t. suffix t s \<and> like_pattern (lit @ ''%'') t)"
    by (simp add: sql_like_def any_suffix_iff)
  also have "\<dots> \<longleftrightarrow> (\<exists>t. suffix t s \<and> prefix lit t)"
    by (simp add: like_literal [OF assms] like_percent prefix_def)
  also have "\<dots> \<longleftrightarrow> sublist lit s"
    by (simp add: sublist_altdef')
  finally show ?thesis .
qed

lemma like_unique_index: "sql_like s ''%UNIQUE INDEX%'' \<longleftrightarrow> sublist ''UNIQUE INDEX'' s"
  using like_contains [of "''UNIQUE INDEX''" s] by simp

lemma index_row_is_unique:
  "prop_of (index_row cat j) ''index_definition'' = JStr (indexdef (fst j)) \<and>
   prop_of (index_row cat j) ''is_unique'' = JBool (sublist ''UNIQUE INDEX'' (indexdef (fst j)))"
  by (cases j) (simp add: index_row_def prop_of_def like_unique_index)


subsection \<open>The index query does not read the uniqueness flag\<close>

lemma insort_key_map:
  "insort_key k (g x) (map g ys) = map g (insort_key (\<lambda>y. k (g y)) x ys)"
  by (induction ys) auto

lemma sort_key_map: "sort_key k (map g xs) = map g (sort_key (\<lambda>y. k (g y)) xs)"
  by (induction xs) (simp_all add: insort_key_map)

lemma concat_map_if_map:
  "concat (map (\<lambda>x. if P x then [h x] else []) (map u xs)) =
   concat (map (\<lambda>x. if P (u x) then [h (u x)] else []) xs)"
  by (induction xs) auto

lemma indexes_comprehension_flag:
  fixes cat :: catalog and f :: "pg_index_row \<Rightarrow> bool"
  defines "u \<equiv> (\<lambda>x. x\<lparr>indisunique := f x\<rparr>)"
  shows "[(i, x).
          i \<leftarrow> pg_indexes cat,
          c \<leftarrow> pg_class cat, relname c = indexname i,
          n \<leftarrow> pg_namespace cat, nspname n = schemaname i \<and> nsp_oid n = relnamespace c,
          x \<leftarrow> map u (pg_index cat), indexrelid x = rel_oid c,
          Some (schemaname i) = p1 \<and> Some (tablename i) = p2] =
     map (apsnd u) [(i, x).
          i \<leftarrow> pg_indexes cat,
          c \<leftarrow> pg_class cat, relname c = indexname i,
          n \<leftarrow> pg_namespace cat, nspname n = schemaname i \<and> nsp_oid n = relnamespace c,
          x \<leftarrow> pg_index cat, indexrelid x = rel_oid c,
          Some (schemaname i) = p1 \<and> Some (tablename i) = p2]"
  by (simp add: map_concat o_def u_def if_distrib [of "map _"] cong: if_cong)


lemma column_names_comprehension_flag:
  fixes cat :: catalog and f :: "pg_index_row \<Rightarrow> bool"
  defines "u \<equiv> (\<lambda>x. x\<lparr>indisunique := f x\<rparr>)"
  shows "[(ix, a).
                ix \<leftarrow> map u (pg_index cat),
                ci \<leftarrow> pg_class cat, rel_oid ci = indexrelid ix,
                ct \<leftarrow> pg_class cat, rel_oid ct = indrelid ix,
                a \<leftarrow> pg_attribute cat, attrelid a = rel_oid ct \<and> attnum a \<in> set (indkey ix),
                n \<leftarrow> pg_namespace cat, nsp_oid n = relnamespace ct,
                relname ci = indexname i \<and> nspname n = schemaname i \<and> relname ct = tablename i] =
     map (apfst u) [(ix, a).
                ix \<leftarrow> pg_index cat,
                ci \<leftarrow> pg_class cat, rel_oid ci = indexrelid ix,
                ct \<leftarrow> pg_class cat, rel_oid ct = indrelid ix,
                a \<leftarrow> pg_attribute cat, attrelid a = rel_oid ct \<and> attnum a \<in> set (indkey ix),
                n \<leftarrow> pg_namespace cat, nsp_oid n = relnamespace ct,
                relname ci = indexname i \<and> nspname n = schemaname i \<and> relname ct = tablename i]"
  by (simp add: map_concat o_def u_def if_distrib [of "map _"] cong: if_cong)

lemma flag_selectors:
  "pg_index (cat\<lparr>pg_index := X\<rparr>) = X"
  "pg_class (cat\<lparr>pg_index := X\<rparr>) = pg_class cat"
  "pg_attribute (cat\<lparr>pg_index := X\<rparr>) = pg_attribute cat"
  "pg_namespace (cat\<lparr>pg_index := X\<rparr>) = pg_namespace cat"
  "pg_indexes (cat\<lparr>pg_index := X\<rparr>) = pg_indexes cat"
  by simp_all

lemma column_names_flag:
  "column_names (cat\<lparr>pg_index := map (\<lambda>x. x\<lparr>indisunique := f x\<rparr>) (pg_index cat)\<rparr>) i =
   column_names cat i"
  unfolding column_names_def flag_selectors column_names_comprehension_flag sort_key_map
  by (simp add: o_def split: list.splits)

lemma index_row_flag:
  "index_row (cat\<lparr>pg_index := map (\<lambda>x. x\<lparr>indisunique := f x\<rparr>) (pg_index cat)\<rparr>)
     (apsnd (\<lambda>x. x\<lparr>indisunique := f x\<rparr>) j) = index_row cat j"
  by (cases j) (simp add: index_row_def column_names_flag)

lemma sql_indexes_flag:
  "sql_indexes (cat\<lparr>pg_index := map (\<lambda>x. x\<lparr>indisunique := f x\<rparr>) (pg_index cat)\<rparr>) p1 p2 =
   sql_indexes cat p1 p2"
  unfolding sql_indexes_def indexes_of_def flag_selectors indexes_comprehension_flag sort_key_map
  by (simp add: o_def index_row_flag)

subsection \<open>The example catalog\<close>

lemma shop_sel:
  "catalog_of shop = shop_catalog"
  "rejects shop q ps = None"
  "param shop (JStr s) = Some s"
  by (simp_all add: shop_def param_def)

lemma shop_catalog_sel:
  "pg_namespace shop_catalog = shop_namespace"
  "pg_class shop_catalog = shop_class"
  "pg_attribute shop_catalog = shop_attribute"
  "pg_constraint shop_catalog = shop_constraint"
  "pg_trigger shop_catalog = shop_trigger"
  "pg_proc shop_catalog = shop_proc"
  "pg_type shop_catalog = shop_type"
  "pg_language shop_catalog = shop_language"
  "pg_index shop_catalog = shop_index"
  "pg_indexes shop_catalog = shop_indexes"
  "information_schema_tables shop_catalog = shop_tables"
  "information_schema_columns shop_catalog = shop_columns"
  "information_schema_views shop_catalog = shop_views"
  "pg_get_constraintdef shop_catalog = shop_constraintdef"
  "pg_get_triggerdef shop_catalog = shop_triggerdef"
  "pg_get_function_arguments shop_catalog = shop_function_arguments"
  by (simp_all add: shop_catalog_def)

lemma shop_accepts: "accepts shop"
  by (simp add: accepts_def shop_sel)

lemma shop_run:
  "fst (extractStructure (pg_client shop) bare) = Inr (document shop [''$user'', ''public''])"
  using extractStructure_succeeds [OF shop_accepts, of bare]
  by (simp add: path_in_effect_def shop_sel)

lemma shop_public_tables:
  "sql_tables shop_catalog (Some ''public'') =
     [JObj [(''table_name'', JStr ''shipments'')],
      JObj [(''table_name'', JStr ''users'')],
      JObj [(''table_name'', JStr ''warehouses'')]]"
  by (simp add: sql_tables_def shop_catalog_sel shop_tables_def)

lemma shop_audit_tables: "sql_tables shop_catalog (Some ''audit'') = []"
  by (simp add: sql_tables_def shop_catalog_sel shop_tables_def)

lemma shop_doc_tables:
  "doc_tables (document shop sp) =
     [table_doc shop sp (JStr ''public'') (JObj [(''table_name'', JStr ''shipments'')]),
      table_doc shop sp (JStr ''public'') (JObj [(''table_name'', JStr ''users'')]),
      table_doc shop sp (JStr ''public'') (JObj [(''table_name'', JStr ''warehouses'')])]"
  by (simp add: doc_tables_def doc_schemas_document schema_doc_tables shop_sel shop_schemas
      prop_of_def shop_public_tables shop_audit_tables)

lemma shop_users_indexes:
  "sql_indexes shop_catalog (Some ''public'') (Some ''users'') =
     [JObj
        [(''index_name'', JStr ''users_label_idx''),
         (''index_definition'',
          JStr ''CREATE INDEX users_label_idx ON public.users USING btree (name) WHERE (name <> 'UNIQUE INDEX'::text)''),
         (''column_names'', JArr [JStr ''name'']),
         (''tablespace_name'', JNull),
         (''is_unique'', JBool True),
         (''is_primary'', JBool False),
         (''is_valid'', JBool True)],
      JObj
        [(''index_name'', JStr ''users_pkey''),
         (''index_definition'',
          JStr ''CREATE UNIQUE INDEX users_pkey ON public.users USING btree (id)''),
         (''column_names'', JArr [JStr ''id'']),
         (''tablespace_name'', JNull),
         (''is_unique'', JBool True),
         (''is_primary'', JBool True),
         (''is_valid'', JBool True)]]"
  by (simp add: sql_indexes_def indexes_of_def index_row_def column_names_def js_text_def
      shop_catalog_sel shop_indexes_def shop_class_def shop_namespace_def shop_index_def
      shop_attribute_def like_unique_index sublist_code)

subsection \<open>The trigger type\<close>

lemma tgtype_has_bit:
  assumes "k < 16"
  shows "tgtype_has t k \<longleftrightarrow> bit t k"
proof -
  have "0 \<le> sint t AND push_bit k (1::int)"
    by simp
  then have "tgtype_has t k \<longleftrightarrow> sint t AND push_bit k 1 \<noteq> 0"
    unfolding tgtype_has_def by linarith
  also have "\<dots> \<longleftrightarrow> bit (sint t) k"
    by (simp add: bit_iff_and_push_bit_not_eq_0)
  also have "\<dots> \<longleftrightarrow> bit t k"
    using assms by (simp add: bit_sint_iff)
  finally show ?thesis .
qed

lemma trigger_row_decoded:
  "prop_of (trigger_row cat sp (trg, p, ns)) ''level'' =
     JStr (if bit (tgtype trg) 0 then ''ROW'' else ''STATEMENT'') \<and>
   prop_of (trigger_row cat sp (trg, p, ns)) ''timing'' =
     JStr (if bit (tgtype trg) 1 then ''BEFORE''
           else if bit (tgtype trg) 6 then ''INSTEAD OF'' else ''AFTER'') \<and>
   prop_of (trigger_row cat sp (trg, p, ns)) ''insert_event'' = JBool (bit (tgtype trg) 2) \<and>
   prop_of (trigger_row cat sp (trg, p, ns)) ''delete_event'' = JBool (bit (tgtype trg) 3) \<and>
   prop_of (trigger_row cat sp (trg, p, ns)) ''update_event'' = JBool (bit (tgtype trg) 4) \<and>
   prop_of (trigger_row cat sp (trg, p, ns)) ''truncate_event'' = JBool (bit (tgtype trg) 5)"
  by (simp add: trigger_row_def prop_of_def trigger_level_def trigger_timing_def tgtype_has_bit)

lemma triggers_of_source:
  "j \<in> set (triggers_of cat p1 p2) \<Longrightarrow> fst j \<in> set (pg_trigger cat)"
  by (auto simp: triggers_of_def)

lemma shop_users_triggers:
  "sql_triggers shop_catalog sp (Some ''public'') (Some ''users'') =
     [JObj
        [(''trigger_name'', JStr ''users_touch''),
         (''enabled'', JStr ''O''),
         (''level'', JStr ''ROW''),
         (''timing'', JStr ''BEFORE''),
         (''insert_event'', JBool False),
         (''delete_event'', JBool False),
         (''update_event'', JBool True),
         (''truncate_event'', JBool False),
         (''function_name'', JStr ''touch_row''),
         (''function_schema'', JStr ''public''),
         (''definition'',
          JStr ''CREATE TRIGGER users_touch BEFORE UPDATE ON public.users FOR EACH ROW EXECUTE FUNCTION touch_row()'')]]"
  by (simp add: sql_triggers_def triggers_of_def trigger_row_def trigger_level_def
      trigger_timing_def tgtype_has_def js_text_def shop_catalog_sel shop_trigger_def
      shop_class_def shop_proc_def shop_namespace_def shop_triggerdef_def)

subsection \<open>Functions and their languages\<close>

lemma left_join_Some:
  "Some l \<in> set (left_join on bs) \<longleftrightarrow> l \<in> set bs \<and> on l"
proof (cases "filter on bs")
  case Nil
  then have "\<not> (l \<in> set bs \<and> on l)"
    by (auto simp: filter_empty_conv)
  with Nil show ?thesis by (simp add: left_join_def)
next
  case (Cons b bs')
  have "Some l \<in> set (left_join on bs) \<longleftrightarrow> l \<in> set (filter on bs)"
    by (auto simp: left_join_def Cons)
  then show ?thesis by simp
qed

lemma functions_of_source:
  assumes "j \<in> set (functions_of cat p1)"
  shows "fst j \<in> set (pg_proc cat) \<and>
    (\<exists>l\<in>set (pg_language cat). lang_oid l = prolang (fst j) \<and>
       lanname l \<noteq> ''internal'' \<and> lanname l \<noteq> ''c'')"
proof -
  from assms obtain p t l where j: "j = (p, t)" and p: "p \<in> set (pg_proc cat)"
    and l: "l \<in> set (left_join (\<lambda>l. prolang p = lang_oid l) (pg_language cat))"
    and ok: "lanname_not_in l"
    by (auto simp: functions_of_def split: if_splits)
  from ok obtain r where r: "l = Some r" and names: "lanname r \<noteq> ''internal''" "lanname r \<noteq> ''c''"
    by (cases l) (auto simp: lanname_not_in_def)
  from l r have "r \<in> set (pg_language cat)" and "prolang p = lang_oid r"
    by (simp_all add: left_join_Some)
  with j p names show ?thesis by auto
qed

lemma native_no_rows:
  assumes "native cat p"
  shows "[l \<leftarrow> left_join (\<lambda>l. prolang p = lang_oid l) (pg_language cat). P \<and> lanname_not_in l] = []"
proof -
  let ?ls = "filter (\<lambda>l. prolang p = lang_oid l) (pg_language cat)"
  from assms have ne: "?ls \<noteq> []" and all: "list_all (\<lambda>l. lanname l = ''internal'' \<or> lanname l = ''c'') ?ls"
    by (simp_all add: native_def)
  from ne have lj: "left_join (\<lambda>l. prolang p = lang_oid l) (pg_language cat) = map Some ?ls"
    by (cases ?ls) (simp_all add: left_join_def)
  from all have "\<forall>l\<in>set ?ls. \<not> lanname_not_in (Some l)"
    by (auto simp: list_all_iff lanname_not_in_def)
  then show ?thesis
    unfolding lj by (auto simp: filter_empty_conv)
qed

lemma native_selectors:
  "pg_proc (cat\<lparr>pg_proc := X\<rparr>) = X"
  "pg_namespace (cat\<lparr>pg_proc := X\<rparr>) = pg_namespace cat"
  "pg_type (cat\<lparr>pg_proc := X\<rparr>) = pg_type cat"
  "pg_language (cat\<lparr>pg_proc := X\<rparr>) = pg_language cat"
  "pg_get_function_arguments (cat\<lparr>pg_proc := X\<rparr>) = pg_get_function_arguments cat"
  by simp_all

lemma concat_map_filter_empty:
  "(\<And>x. x \<in> set xs \<Longrightarrow> \<not> P x \<Longrightarrow> h x = []) \<Longrightarrow>
   concat (map h (filter P xs)) = concat (map h xs)"
  by (induction xs) auto

lemma concat_map_if_none:
  "(\<forall>x\<in>set xs. \<not> P x) \<Longrightarrow> concat (map (\<lambda>x. if P x then [y] else []) xs) = []"
  by (induction xs) auto

lemma functions_comprehension_native:
  "[(p, t).
          p \<leftarrow> filter (\<lambda>p. \<not> native cat p) (pg_proc cat),
          n \<leftarrow> pg_namespace cat, pronamespace p = nsp_oid n,
          t \<leftarrow> pg_type cat, prorettype p = typ_oid t,
          l \<leftarrow> left_join (\<lambda>l. prolang p = lang_oid l) (pg_language cat),
          Some (nspname n) = p1 \<and> lanname_not_in l] =
   [(p, t).
          p \<leftarrow> pg_proc cat,
          n \<leftarrow> pg_namespace cat, pronamespace p = nsp_oid n,
          t \<leftarrow> pg_type cat, prorettype p = typ_oid t,
          l \<leftarrow> left_join (\<lambda>l. prolang p = lang_oid l) (pg_language cat),
          Some (nspname n) = p1 \<and> lanname_not_in l]"
proof (rule concat_map_filter_empty)
  fix p
  assume "\<not> \<not> native cat p"
  then have nat: "native cat p" by simp
  have inner: "concat (map (\<lambda>l. if Some (nspname n) = p1 \<and> lanname_not_in l then [(p, t)] else [])
      (left_join (\<lambda>l. prolang p = lang_oid l) (pg_language cat))) = []"
    for n :: pg_namespace_row and t :: pg_type_row
  proof -
    have "\<forall>l\<in>set (left_join (\<lambda>l. prolang p = lang_oid l) (pg_language cat)).
        \<not> (Some (nspname n) = p1 \<and> lanname_not_in l)"
      using native_no_rows [OF nat, of "Some (nspname n) = p1"]
      by (simp add: filter_empty_conv)
    then show ?thesis by (rule concat_map_if_none)
  qed
  show "concat (map (\<lambda>n. if pronamespace p = nsp_oid n
        then concat (map (\<lambda>t. if prorettype p = typ_oid t
          then concat (map (\<lambda>l. if Some (nspname n) = p1 \<and> lanname_not_in l then [(p, t)] else [])
            (left_join (\<lambda>l. prolang p = lang_oid l) (pg_language cat)))
          else []) (pg_type cat))
        else []) (pg_namespace cat)) = []"
    unfolding inner by auto
qed

lemma sql_functions_native:
  "sql_functions (cat\<lparr>pg_proc := filter (\<lambda>p. \<not> native cat p) (pg_proc cat)\<rparr>) sp p1 =
   sql_functions cat sp p1"
proof -
  have row: "function_row (cat\<lparr>pg_proc := X\<rparr>) sp = function_row cat sp" for X
    by (rule ext) (simp add: function_row_def split: prod.splits)
  show ?thesis
    unfolding sql_functions_def functions_of_def native_selectors functions_comprehension_native row
    by (rule refl)
qed


lemma shop_public_functions:
  "sql_functions shop_catalog sp (Some ''public'') =
     [JObj
        [(''function_name'', JStr ''touch_row''),
         (''function_arguments'', JStr []),
         (''return_type'', JStr ''trigger''),
         (''function_body'', JStr ''BEGIN RETURN NEW; END''),
         (''volatility'', JStr ''v''),
         (''is_strict'', JBool False),
         (''returns_set'', JBool False),
         (''function_type'', JStr ''FUNCTION'')]]"
  by (simp add: sql_functions_def functions_of_def function_row_def function_type_def
      left_join_def lanname_not_in_def js_text_def shop_catalog_sel shop_proc_def
      shop_namespace_def shop_type_def shop_language_def shop_function_arguments_def)

lemma shop_doc_schemas:
  "doc_schemas (document shop shop_path) = [shop_schema ''audit'', shop_schema ''public'']"
  by (simp add: doc_schemas_document shop_sel shop_schemas shop_schema_def)

lemma shop_run_path:
  "fst (extractStructure (pg_client shop) bare) = Inr (document shop shop_path)"
  using shop_run by (simp add: shop_path_def)

lemma shop_fast_hash_native:
  "native shop_catalog
     \<lparr>proc_oid = 16441, proname = ''fast_hash'', pronamespace = 2200, prorettype = 23,
       prolang = 13, prosrc = ''fast_hash'', provolatile = CHR ''i'',
       proisstrict = True, proretset = False, prokind = CHR ''f''\<rparr>"
  by (simp add: native_def shop_catalog_sel shop_language_def)


subsection \<open>The shape of schema and table entries\<close>


lemma schema_doc_shape:
  "keys (schema_doc env sp row) = [''name'', ''tables'', ''views'', ''functions''] \<and>
   prop_of (schema_doc env sp row) ''tables'' =
     JArr (map (table_doc env sp (prop_of row ''schema_name''))
       (sql_tables (catalog_of env) (param env (prop_of row ''schema_name'')))) \<and>
   prop_of (schema_doc env sp row) ''views'' =
     JArr (map view_object (sql_views (catalog_of env) (param env (prop_of row ''schema_name'')))) \<and>
   prop_of (schema_doc env sp row) ''functions'' =
     JArr (map function_object
       (sql_functions (catalog_of env) sp (param env (prop_of row ''schema_name''))))"
  by (simp add: schema_doc_def Let_def keys_def prop_of_def)

lemma table_doc_shape:
  "keys (table_doc env sp sn row) =
     [''name'', ''columns'', ''constraints'', ''foreignKeys'', ''triggers'', ''indexes''] \<and>
   prop_of (table_doc env sp sn row) ''columns'' =
     JArr (sql_columns (catalog_of env) (param env sn) (param env (prop_of row ''table_name''))) \<and>
   prop_of (table_doc env sp sn row) ''constraints'' =
     JArr (sql_constraints (catalog_of env) sp (param env sn) (param env (prop_of row ''table_name''))) \<and>
   prop_of (table_doc env sp sn row) ''foreignKeys'' =
     JArr (sql_foreign_keys (catalog_of env) (param env sn) (param env (prop_of row ''table_name''))) \<and>
   prop_of (table_doc env sp sn row) ''triggers'' =
     JArr (sql_triggers (catalog_of env) sp (param env sn) (param env (prop_of row ''table_name''))) \<and>
   prop_of (table_doc env sp sn row) ''indexes'' =
     JArr (sql_indexes (catalog_of env) (param env sn) (param env (prop_of row ''table_name'')))"
  by (simp add: table_doc_def Let_def keys_def prop_of_def)

lemma prop_JArr_children: "prop_of v k = JArr xs \<Longrightarrow> children k v = xs"
  by (simp add: children_def elems_def)


subsection \<open>Order\<close>


lemma prop_of_JObj:
  "prop_of (JObj kvs) k = (case map_of kvs k of None \<Rightarrow> JUndefined | Some x \<Rightarrow> x)"
  by (simp add: prop_of_def)

lemma names_of_strings:
  "map (\<lambda>x. prop_of x k) xs = map JStr ns \<Longrightarrow>
   list_all (\<lambda>x. text_of (prop_of x k) \<noteq> None) xs \<and>
   map (\<lambda>x. the (text_of (prop_of x k))) xs = ns"
proof (induction xs arbitrary: ns)
  case Nil
  then show ?case by simp
next
  case (Cons x xs)
  then obtain n ns' where "ns = n # ns'" by (cases ns) auto
  with Cons show ?case by (auto simp: text_of_def)
qed

lemma sorted_byI:
  assumes "map (\<lambda>x. prop_of x k) xs = map JStr ns" and "sorted ns"
  shows "sorted_by k xs"
  using names_of_strings [OF assms(1)] assms(2) by (simp add: sorted_by_def)

lemma sorted_schemas:
  "sorted_by ''name'' (map (schema_doc env sp) (sql_schemas cat))"
proof (rule sorted_byI)
  let ?rows = "sort_key nspname
         (filter (\<lambda>n. \<not> sql_like (nspname n) ''pg_%'' \<and> nspname n \<noteq> ''information_schema'')
           (pg_namespace cat))"
  show "map (\<lambda>x. prop_of x ''name'') (map (schema_doc env sp) (sql_schemas cat)) =
      map JStr (map nspname ?rows)"
    by (simp add: sql_schemas_def schema_doc_name prop_of_JObj o_def)
  show "sorted (map nspname ?rows)" by simp
qed

lemma sorted_tables:
  "sorted_by ''name'' (map (table_doc env sp sn) (sql_tables cat p1))"
proof (rule sorted_byI)
  let ?rows = "sort_key tables_table_name
         (filter (\<lambda>t. Some (tables_table_schema t) = p1 \<and> table_type t = ''BASE TABLE'')
           (information_schema_tables cat))"
  show "map (\<lambda>x. prop_of x ''name'') (map (table_doc env sp sn) (sql_tables cat p1)) =
      map JStr (map tables_table_name ?rows)"
    by (simp add: sql_tables_def table_doc_name prop_of_JObj o_def)
  show "sorted (map tables_table_name ?rows)" by simp
qed

lemma sorted_views:
  "sorted_by ''name'' (map view_object (sql_views cat p1))"
proof (rule sorted_byI)
  let ?rows = "sort_key views_table_name
         (filter (\<lambda>v. Some (views_table_schema v) = p1) (information_schema_views cat))"
  show "map (\<lambda>x. prop_of x ''name'') (map view_object (sql_views cat p1)) =
      map JStr (map views_table_name ?rows)"
    by (simp add: sql_views_def view_object_def prop_of_def o_def)
  show "sorted (map views_table_name ?rows)" by simp
qed

lemma sorted_functions:
  "sorted_by ''name'' (map function_object (sql_functions cat sp p1))"
proof (rule sorted_byI)
  show "map (\<lambda>x. prop_of x ''name'') (map function_object (sql_functions cat sp p1)) =
      map JStr (map (\<lambda>j. proname (fst j)) (functions_of cat p1))"
    by (simp add: sql_functions_def function_object_def function_row_def prop_of_def o_def
        split: prod.splits)
  show "sorted (map (\<lambda>j. proname (fst j)) (functions_of cat p1))"
    by (simp add: functions_of_def)
qed

lemma sorted_constraints:
  "sorted_by ''constraint_name'' (sql_constraints cat sp p1 p2)"
proof (rule sorted_byI)
  show "map (\<lambda>x. prop_of x ''constraint_name'') (sql_constraints cat sp p1 p2) =
      map JStr (map conname (constraints_of cat p1 p2))"
    by (simp add: sql_constraints_def constraint_row_def prop_of_def o_def)
  show "sorted (map conname (constraints_of cat p1 p2))"
    by (simp add: constraints_of_def)
qed

lemma sorted_foreign_keys:
  "sorted_by ''constraint_name'' (sql_foreign_keys cat p1 p2)"
proof (rule sorted_byI)
  show "map (\<lambda>x. prop_of x ''constraint_name'') (sql_foreign_keys cat p1 p2) =
      map JStr (map (\<lambda>j. conname (fst j)) (foreign_keys_of cat p1 p2))"
    by (simp add: sql_foreign_keys_def foreign_key_row_def prop_of_def o_def split: prod.splits)
  show "sorted (map (\<lambda>j. conname (fst j)) (foreign_keys_of cat p1 p2))"
    by (simp add: foreign_keys_of_def)
qed

lemma sorted_triggers:
  "sorted_by ''trigger_name'' (sql_triggers cat sp p1 p2)"
proof (rule sorted_byI)
  show "map (\<lambda>x. prop_of x ''trigger_name'') (sql_triggers cat sp p1 p2) =
      map JStr (map (\<lambda>j. tgname (fst j)) (triggers_of cat p1 p2))"
    by (simp add: sql_triggers_def trigger_row_def prop_of_def o_def split: prod.splits)
  show "sorted (map (\<lambda>j. tgname (fst j)) (triggers_of cat p1 p2))"
    by (simp add: triggers_of_def)
qed

lemma sorted_indexes:
  "sorted_by ''index_name'' (sql_indexes cat p1 p2)"
proof (rule sorted_byI)
  show "map (\<lambda>x. prop_of x ''index_name'') (sql_indexes cat p1 p2) =
      map JStr (map (\<lambda>j. indexname (fst j)) (indexes_of cat p1 p2))"
    by (simp add: sql_indexes_def index_row_def prop_of_def o_def split: prod.splits)
  show "sorted (map (\<lambda>j. indexname (fst j)) (indexes_of cat p1 p2))"
    by (simp add: indexes_of_def)
qed

lemma columns_by_position:
  "sorted (map ordinal_position (columns_of cat p1 p2)) \<and>
   set (columns_of cat p1 p2) \<subseteq> set (information_schema_columns cat)"
  by (auto simp: columns_of_def)


lemma shop_table_in_doc:
  "shop_table ''shipments'' \<in> set (doc_tables (document shop shop_path))"
  "shop_table ''users'' \<in> set (doc_tables (document shop shop_path))"
  "shop_table ''warehouses'' \<in> set (doc_tables (document shop shop_path))"
  by (simp_all add: shop_doc_tables shop_table_def)

lemma shop_table_children:
  "children ''columns'' (shop_table n) = sql_columns shop_catalog (Some ''public'') (Some n)"
  "children ''constraints'' (shop_table n) =
     sql_constraints shop_catalog shop_path (Some ''public'') (Some n)"
  "children ''foreignKeys'' (shop_table n) =
     sql_foreign_keys shop_catalog (Some ''public'') (Some n)"
  "children ''triggers'' (shop_table n) =
     sql_triggers shop_catalog shop_path (Some ''public'') (Some n)"
  "children ''indexes'' (shop_table n) = sql_indexes shop_catalog (Some ''public'') (Some n)"
  by (simp_all add: shop_table_def table_doc_columns table_doc_constraints
      table_doc_foreignKeys table_doc_triggers table_doc_indexes shop_sel prop_of_JObj)

lemma shop_table_name: "prop_of (shop_table n) ''name'' = JStr n"
  by (simp add: shop_table_def table_doc_name prop_of_JObj)

lemma shop_warehouses_columns:
  "sql_columns shop_catalog (Some ''public'') (Some ''warehouses'') =
     [JObj
        [(''column_name'', JStr ''region''),
         (''data_type'', JStr ''text''),
         (''is_nullable'', JStr ''NO''),
         (''column_default'', JNull),
         (''character_maximum_length'', JNull),
         (''numeric_precision'', JNull),
         (''numeric_scale'', JNull)],
      JObj
        [(''column_name'', JStr ''code''),
         (''data_type'', JStr ''text''),
         (''is_nullable'', JStr ''NO''),
         (''column_default'', JNull),
         (''character_maximum_length'', JNull),
         (''numeric_precision'', JNull),
         (''numeric_scale'', JNull)]]"
  by (simp add: sql_columns_def columns_of_def column_row_def js_text_def js_int_def
      shop_catalog_sel shop_columns_def)

lemma shop_users_columns:
  "sql_columns shop_catalog (Some ''public'') (Some ''users'') =
     [JObj
        [(''column_name'', JStr ''id''),
         (''data_type'', JStr ''integer''),
         (''is_nullable'', JStr ''NO''),
         (''column_default'', JNull),
         (''character_maximum_length'', JNull),
         (''numeric_precision'', JNum 32),
         (''numeric_scale'', JNum 0)],
      JObj
        [(''column_name'', JStr ''name''),
         (''data_type'', JStr ''text''),
         (''is_nullable'', JStr ''YES''),
         (''column_default'', JStr '''anon'::text''),
         (''character_maximum_length'', JNull),
         (''numeric_precision'', JNull),
         (''numeric_scale'', JNull)]]"
  by (simp add: sql_columns_def columns_of_def column_row_def js_text_def js_int_def
      shop_catalog_sel shop_columns_def)

lemma shop_users_constraints:
  "sql_constraints shop_catalog sp (Some ''public'') (Some ''users'') =
     [JObj
        [(''constraint_name'', JStr ''users_pkey''),
         (''constraint_type'', JStr ''p''),
         (''constraint_type_desc'', JStr ''PRIMARY KEY''),
         (''definition'', JStr ''PRIMARY KEY (id)'')]]"
  by (simp add: sql_constraints_def constraints_of_def constraint_row_def
      constraint_type_desc_def js_text_def shop_catalog_sel shop_constraint_def shop_class_def
      shop_namespace_def shop_constraintdef_def)

lemma shop_shipments_foreign_keys:
  "sql_foreign_keys shop_catalog (Some ''public'') (Some ''shipments'') =
     [JObj
        [(''constraint_name'', JStr ''shipments_wh_fkey''),
         (''source_schema'', JStr ''public''),
         (''source_table'', JStr ''shipments''),
         (''source_columns'', JArr [JStr ''wh_code'', JStr ''wh_region'']),
         (''target_schema'', JStr ''public''),
         (''target_table'', JStr ''warehouses''),
         (''target_columns'', JArr [JStr ''region'', JStr ''code'']),
         (''update_rule'', JStr ''NO ACTION''),
         (''delete_rule'', JStr ''CASCADE'')]]"
  by (simp add: sql_foreign_keys_def foreign_keys_of_def foreign_key_row_def key_columns_def
      fk_rule_def js_text_def shop_catalog_sel shop_namespace_def shop_class_def
      shop_constraint_def shop_attribute_def)



subsection \<open>Field names\<close>


lemma column_row_fields:
  "keys (column_row c) =
     [''column_name'', ''data_type'', ''is_nullable'', ''column_default'',
      ''character_maximum_length'', ''numeric_precision'', ''numeric_scale''] \<and>
   prop_of (column_row c) ''column_name'' = JStr (column_name c) \<and>
   prop_of (column_row c) ''data_type'' = JStr (data_type c) \<and>
   prop_of (column_row c) ''is_nullable'' = JStr (is_nullable c) \<and>
   prop_of (column_row c) ''name'' = JUndefined \<and>
   prop_of (column_row c) ''default'' = JUndefined \<and>
   prop_of (column_row c) ''max_length'' = JUndefined"
  by (simp add: column_row_def keys_def prop_of_JObj)

lemma constraint_row_fields:
  "keys (constraint_row cat sp con) =
     [''constraint_name'', ''constraint_type'', ''constraint_type_desc'', ''definition''] \<and>
   prop_of (constraint_row cat sp con) ''constraint_name'' = JStr (conname con) \<and>
   prop_of (constraint_row cat sp con) ''constraint_type'' = JStr [contype con] \<and>
   prop_of (constraint_row cat sp con) ''constraint_type_desc'' =
     JStr (constraint_type_desc (contype con)) \<and>
   prop_of (constraint_row cat sp con) ''name'' = JUndefined \<and>
   prop_of (constraint_row cat sp con) ''type'' = JUndefined"
  by (simp add: constraint_row_def keys_def prop_of_JObj)

lemma constraints_of_source:
  "con \<in> set (constraints_of cat p1 p2) \<Longrightarrow> con \<in> set (pg_constraint cat)"
  by (auto simp: constraints_of_def split: if_splits)

lemma shop_audit_rows:
  "sql_tables shop_catalog (Some ''audit'') = []"
  "sql_views shop_catalog (Some ''audit'') = []"
  "sql_functions shop_catalog sp (Some ''audit'') = []"
  by (simp_all add: sql_tables_def sql_views_def sql_functions_def functions_of_def
      left_join_def lanname_not_in_def shop_catalog_sel shop_tables_def shop_views_def
      shop_proc_def shop_namespace_def shop_type_def shop_language_def)


section \<open>Foreign keys\<close>

text \<open>
  Claim C1 says that \<open>source_columns\<close> and \<open>target_columns\<close> of a foreign key entry
  correspond position by position, in the declared key order. The two arrays of
  \<^verbatim>\<open>getForeignKeys\<close> are each read from \<^verbatim>\<open>pg_attribute\<close> without an ORDER BY, so each comes
  in the scan order of the attributes, not in the order of \<open>conkey\<close> and \<open>confkey\<close>
  (the index query does order its column names, by \<^verbatim>\<open>array_position\<close>). On the example
  catalog the foreign key \<^verbatim>\<open>(wh_code, wh_region) REFERENCES warehouses (code, region)\<close>
  has \<open>conkey = [2, 3]\<close> and \<open>confkey = [2, 1]\<close>; the document pairs \<^verbatim>\<open>wh_code\<close> with
  \<^verbatim>\<open>region\<close> and \<^verbatim>\<open>wh_region\<close> with \<^verbatim>\<open>code\<close>, where the key order of the target is
  \<^verbatim>\<open>code\<close>, \<^verbatim>\<open>region\<close>.
\<close>

theorem foreign_key_columns_out_of_step:
  "fst (extractStructure (pg_client shop) bare) = Inr (document shop shop_path) \<and>
   shop_table ''shipments'' \<in> set (doc_tables (document shop shop_path)) \<and>
   map (\<lambda>x. (prop_of x ''constraint_name'', prop_of x ''source_columns'', prop_of x ''target_columns''))
     (children ''foreignKeys'' (shop_table ''shipments'')) =
     [(JStr ''shipments_wh_fkey'',
       JArr [JStr ''wh_code'', JStr ''wh_region''],
       JArr [JStr ''region'', JStr ''code''])] \<and>
   map (\<lambda>con. (conname con, conkey con, confkey con))
     (filter (\<lambda>con. contype con = CHR ''f'') (pg_constraint shop_catalog)) =
     [(''shipments_wh_fkey'', [2, 3], [2, 1])] \<and>
   [attname a. k \<leftarrow> [2, 1], a \<leftarrow> pg_attribute shop_catalog, attrelid a = 16401 \<and> attnum a = k] =
     [''code'', ''region'']"
  by (simp add: shop_run_path shop_table_in_doc shop_table_children shop_shipments_foreign_keys
      prop_of_JObj shop_catalog_sel shop_constraint_def shop_attribute_def)



section \<open>The order of the child lists\<close>

text \<open>
  Claim C2, as amended. In the document of a run over a PostgreSQL connection, the
  schemas of the database, the tables, views and functions of a schema are sorted
  ascending by \<open>name\<close>, the constraints and the foreign keys of a table by
  \<open>constraint_name\<close>, its triggers by \<open>trigger_name\<close> and its indexes by
  \<open>index_name\<close>. The columns of a table are not sorted by name: they are the rows of
  \<^verbatim>\<open>information_schema.columns\<close> in ascending \<open>ordinal_position\<close>.
\<close>

theorem child_lists_are_ordered:
  assumes "fst (extractStructure (pg_client env) w) = Inr d"
  shows "(\<forall>db\<in>set (children ''databases'' d). sorted_by ''name'' (children ''schemas'' db)) \<and>
    (\<forall>s\<in>set (doc_schemas d).
       sorted_by ''name'' (children ''tables'' s) \<and>
       sorted_by ''name'' (children ''views'' s) \<and>
       sorted_by ''name'' (children ''functions'' s)) \<and>
    (\<forall>t\<in>set (doc_tables d).
       sorted_by ''constraint_name'' (children ''constraints'' t) \<and>
       sorted_by ''constraint_name'' (children ''foreignKeys'' t) \<and>
       sorted_by ''trigger_name'' (children ''triggers'' t) \<and>
       sorted_by ''index_name'' (children ''indexes'' t) \<and>
       (\<exists>cs. children ''columns'' t = map column_row cs \<and>
          sorted (map ordinal_position cs) \<and>
          set cs \<subseteq> set (information_schema_columns (catalog_of env))))"
proof (intro conjI ballI)
  let ?sp = "path_in_effect env (session w)"
  from assms have d: "d = document env ?sp"
    by (rule extractStructure_document)
  {
    fix db
    assume "db \<in> set (children ''databases'' d)"
    then have "children ''schemas'' db = map (schema_doc env ?sp) (sql_schemas (catalog_of env))"
      by (auto simp: d document_def)
    then show "sorted_by ''name'' (children ''schemas'' db)"
      by (simp add: sorted_schemas)
  }
  {
    fix s
    assume "s \<in> set (doc_schemas d)"
    with d obtain row where s: "s = schema_doc env ?sp row"
      by (auto elim: doc_schemas_cases)
    show "sorted_by ''name'' (children ''tables'' s)"
      by (simp add: s schema_doc_tables sorted_tables)
    show "sorted_by ''name'' (children ''views'' s)"
      by (simp add: s schema_doc_views sorted_views)
    show "sorted_by ''name'' (children ''functions'' s)"
      by (simp add: s schema_doc_functions sorted_functions)
  }
  {
    fix t
    assume "t \<in> set (doc_tables d)"
    with d obtain sn row where t: "t = table_doc env ?sp sn row"
      by (auto elim: doc_tables_cases)
    show "sorted_by ''constraint_name'' (children ''constraints'' t)"
      by (simp add: t table_doc_constraints sorted_constraints)
    show "sorted_by ''constraint_name'' (children ''foreignKeys'' t)"
      by (simp add: t table_doc_foreignKeys sorted_foreign_keys)
    show "sorted_by ''trigger_name'' (children ''triggers'' t)"
      by (simp add: t table_doc_triggers sorted_triggers)
    show "sorted_by ''index_name'' (children ''indexes'' t)"
      by (simp add: t table_doc_indexes sorted_indexes)
    show "\<exists>cs. children ''columns'' t = map column_row cs \<and>
          sorted (map ordinal_position cs) \<and>
          set cs \<subseteq> set (information_schema_columns (catalog_of env))"
      using columns_by_position [of "catalog_of env" "param env sn" "param env (prop_of row ''table_name'')"]
      by (intro exI [of _ "columns_of (catalog_of env) (param env sn) (param env (prop_of row ''table_name''))"])
        (simp add: t table_doc_columns sql_columns_def)
  }
qed

text \<open>
  The claim as stated includes the columns among the lists sorted by name. The table
  \<^verbatim>\<open>warehouses (region, code)\<close> of the example has its columns in that order in the
  document, which is not ascending; and no column entry has a field \<open>name\<close>.
\<close>

theorem columns_are_not_sorted_by_name:
  "fst (extractStructure (pg_client shop) bare) = Inr (document shop shop_path) \<and>
   shop_table ''warehouses'' \<in> set (doc_tables (document shop shop_path)) \<and>
   map (\<lambda>x. prop_of x ''column_name'') (children ''columns'' (shop_table ''warehouses'')) =
     [JStr ''region'', JStr ''code''] \<and>
   \<not> sorted_by ''column_name'' (children ''columns'' (shop_table ''warehouses'')) \<and>
   \<not> sorted_by ''name'' (children ''columns'' (shop_table ''warehouses''))"
  by (simp add: shop_run_path shop_table_in_doc shop_table_children shop_warehouses_columns
      sorted_by_def prop_of_JObj text_of_def)


theorem child_lists_are_ordered_witness:
  "fst (extractStructure (pg_client shop) bare) = Inr (document shop shop_path) \<and>
   map (\<lambda>x. prop_of x ''name'') (doc_tables (document shop shop_path)) =
     [JStr ''shipments'', JStr ''users'', JStr ''warehouses''] \<and>
   sorted_by ''name'' (children ''tables'' (shop_schema ''public'')) \<and>
   sorted_by ''index_name'' (children ''indexes'' (shop_table ''users'')) \<and>
   map (\<lambda>x. prop_of x ''index_name'') (children ''indexes'' (shop_table ''users'')) =
     [JStr ''users_label_idx'', JStr ''users_pkey'']"
  using child_lists_are_ordered [OF shop_run_path]
  by (simp add: shop_run_path shop_doc_tables shop_doc_schemas shop_path_def [symmetric]
      shop_table_name shop_table_children shop_users_indexes prop_of_JObj shop_table_def [symmetric])

section \<open>The fields of column and constraint entries\<close>

text \<open>
  Claim C3, as amended. \<^verbatim>\<open>getColumns\<close> and \<^verbatim>\<open>getConstraints\<close> return the rows of their
  queries as they are, so an entry has the aliases of the SELECT list as its fields: a
  column entry has \<open>column_name\<close>, \<open>data_type\<close>, \<open>is_nullable\<close>, \<open>column_default\<close>,
  \<open>character_maximum_length\<close>, \<open>numeric_precision\<close>, \<open>numeric_scale\<close>, with the values
  of a row of \<^verbatim>\<open>information_schema.columns\<close>; a constraint entry has \<open>constraint_name\<close>,
  \<open>constraint_type\<close> (the catalog's one-letter code), \<open>constraint_type_desc\<close> (the label:
  \<^verbatim>\<open>PRIMARY KEY\<close> for \<^verbatim>\<open>p\<close>, \<^verbatim>\<open>UNIQUE\<close> for \<^verbatim>\<open>u\<close>, \<^verbatim>\<open>CHECK\<close> for \<^verbatim>\<open>c\<close>,
  \<^verbatim>\<open>FOREIGN KEY\<close> for \<^verbatim>\<open>f\<close>, the code itself otherwise) and \<open>definition\<close>.
\<close>

theorem entries_keep_the_query_aliases:
  assumes "fst (extractStructure (pg_client env) w) = Inr d"
  shows "\<forall>t\<in>set (doc_tables d).
     (\<forall>x\<in>set (children ''columns'' t).
        keys x =
          [''column_name'', ''data_type'', ''is_nullable'', ''column_default'',
           ''character_maximum_length'', ''numeric_precision'', ''numeric_scale''] \<and>
        (\<exists>c\<in>set (information_schema_columns (catalog_of env)).
           prop_of x ''column_name'' = JStr (column_name c) \<and>
           prop_of x ''data_type'' = JStr (data_type c) \<and>
           prop_of x ''is_nullable'' = JStr (is_nullable c))) \<and>
     (\<forall>x\<in>set (children ''constraints'' t).
        keys x = [''constraint_name'', ''constraint_type'', ''constraint_type_desc'', ''definition''] \<and>
        (\<exists>con\<in>set (pg_constraint (catalog_of env)).
           prop_of x ''constraint_name'' = JStr (conname con) \<and>
           prop_of x ''constraint_type'' = JStr [contype con] \<and>
           prop_of x ''constraint_type_desc'' =
             JStr (if contype con = CHR ''p'' then ''PRIMARY KEY''
                   else if contype con = CHR ''u'' then ''UNIQUE''
                   else if contype con = CHR ''c'' then ''CHECK''
                   else if contype con = CHR ''f'' then ''FOREIGN KEY''
                   else [contype con])))"
proof (intro ballI conjI)
  let ?sp = "path_in_effect env (session w)"
  from assms have d: "d = document env ?sp"
    by (rule extractStructure_document)
  fix t
  assume "t \<in> set (doc_tables d)"
  with d obtain sn row where t: "t = table_doc env ?sp sn row"
    by (auto elim: doc_tables_cases)
  {
    fix x
    assume "x \<in> set (children ''columns'' t)"
    then obtain c where c: "c \<in> set (information_schema_columns (catalog_of env))"
      and x: "x = column_row c"
      using columns_by_position [of "catalog_of env" "param env sn" "param env (prop_of row ''table_name'')"]
      by (auto simp: t table_doc_columns sql_columns_def)
    show "keys x =
          [''column_name'', ''data_type'', ''is_nullable'', ''column_default'',
           ''character_maximum_length'', ''numeric_precision'', ''numeric_scale'']"
      by (simp add: x column_row_fields)
    show "\<exists>c\<in>set (information_schema_columns (catalog_of env)).
           prop_of x ''column_name'' = JStr (column_name c) \<and>
           prop_of x ''data_type'' = JStr (data_type c) \<and>
           prop_of x ''is_nullable'' = JStr (is_nullable c)"
      using c by (intro bexI [of _ c]) (simp_all add: x column_row_fields)
  }
  {
    fix x
    assume "x \<in> set (children ''constraints'' t)"
    then obtain con where con: "con \<in> set (pg_constraint (catalog_of env))"
      and x: "x = constraint_row (catalog_of env) ?sp con"
      by (auto simp: t table_doc_constraints sql_constraints_def dest: constraints_of_source)
    show "keys x = [''constraint_name'', ''constraint_type'', ''constraint_type_desc'', ''definition'']"
      by (simp add: x constraint_row_fields)
    show "\<exists>con\<in>set (pg_constraint (catalog_of env)).
           prop_of x ''constraint_name'' = JStr (conname con) \<and>
           prop_of x ''constraint_type'' = JStr [contype con] \<and>
           prop_of x ''constraint_type_desc'' =
             JStr (if contype con = CHR ''p'' then ''PRIMARY KEY''
                   else if contype con = CHR ''u'' then ''UNIQUE''
                   else if contype con = CHR ''c'' then ''CHECK''
                   else if contype con = CHR ''f'' then ''FOREIGN KEY''
                   else [contype con])"
      using con
      by (intro bexI [of _ con]) (simp_all add: x constraint_row_fields constraint_type_desc_def)
  }
qed


text \<open>
  The claim as stated names the fields \<open>name\<close> of a column entry and \<open>type\<close> of a
  constraint entry. For the table \<^verbatim>\<open>users (id int not null, name text default 'anon',
  primary key (id))\<close> of the example neither field is there.
\<close>

theorem column_entry_has_no_name_field:
  "fst (extractStructure (pg_client shop) bare) = Inr (document shop shop_path) \<and>
   shop_table ''users'' \<in> set (doc_tables (document shop shop_path)) \<and>
   map keys (children ''columns'' (shop_table ''users'')) =
     [[''column_name'', ''data_type'', ''is_nullable'', ''column_default'',
       ''character_maximum_length'', ''numeric_precision'', ''numeric_scale''],
      [''column_name'', ''data_type'', ''is_nullable'', ''column_default'',
       ''character_maximum_length'', ''numeric_precision'', ''numeric_scale'']] \<and>
   map (\<lambda>x. prop_of x ''name'') (children ''columns'' (shop_table ''users'')) =
     [JUndefined, JUndefined] \<and>
   map keys (children ''constraints'' (shop_table ''users'')) =
     [[''constraint_name'', ''constraint_type'', ''constraint_type_desc'', ''definition'']] \<and>
   map (\<lambda>x. prop_of x ''type'') (children ''constraints'' (shop_table ''users'')) =
     [JUndefined]"
  by (simp add: shop_run_path shop_table_in_doc shop_table_children shop_users_columns
      shop_users_constraints keys_def prop_of_JObj)


theorem entries_keep_the_query_aliases_witness:
  "fst (extractStructure (pg_client shop) bare) = Inr (document shop shop_path) \<and>
   shop_table ''users'' \<in> set (doc_tables (document shop shop_path)) \<and>
   map (\<lambda>x. (prop_of x ''column_name'', prop_of x ''data_type'', prop_of x ''is_nullable''))
     (children ''columns'' (shop_table ''users'')) =
     [(JStr ''id'', JStr ''integer'', JStr ''NO''), (JStr ''name'', JStr ''text'', JStr ''YES'')] \<and>
   map (\<lambda>x. (prop_of x ''constraint_type'', prop_of x ''constraint_type_desc''))
     (children ''constraints'' (shop_table ''users'')) =
     [(JStr ''p'', JStr ''PRIMARY KEY'')]"
  using entries_keep_the_query_aliases [OF shop_run_path]
  by (simp add: shop_run_path shop_table_in_doc shop_table_children shop_users_columns
      shop_users_constraints prop_of_JObj)



section \<open>Triggers\<close>

text \<open>
  Claim C4. Every trigger entry of the document comes from a row of \<^verbatim>\<open>pg_trigger\<close> and
  decodes its \<open>tgtype\<close>: \<open>level\<close> is ROW when bit 0 is set and STATEMENT otherwise;
  \<open>timing\<close> is BEFORE when bit 1 is set, else INSTEAD OF when bit 6 is set, else AFTER;
  \<open>insert_event\<close>, \<open>delete_event\<close>, \<open>update_event\<close> and \<open>truncate_event\<close> are the
  bits 2, 3, 4 and 5. So a trigger whose type has the BEFORE and UPDATE bits and none of
  the bits 2, 3, 5 has timing BEFORE, \<open>update_event\<close> true and the other three events
  false.
\<close>

theorem trigger_type_decoding:
  assumes "fst (extractStructure (pg_client env) w) = Inr d"
  shows "\<forall>t\<in>set (doc_tables d). \<forall>x\<in>set (children ''triggers'' t).
     \<exists>trg\<in>set (pg_trigger (catalog_of env)).
       prop_of x ''trigger_name'' = JStr (tgname trg) \<and>
       prop_of x ''level'' = JStr (if bit (tgtype trg) 0 then ''ROW'' else ''STATEMENT'') \<and>
       prop_of x ''timing'' =
         JStr (if bit (tgtype trg) 1 then ''BEFORE''
               else if bit (tgtype trg) 6 then ''INSTEAD OF'' else ''AFTER'') \<and>
       prop_of x ''insert_event'' = JBool (bit (tgtype trg) 2) \<and>
       prop_of x ''delete_event'' = JBool (bit (tgtype trg) 3) \<and>
       prop_of x ''update_event'' = JBool (bit (tgtype trg) 4) \<and>
       prop_of x ''truncate_event'' = JBool (bit (tgtype trg) 5)"
proof (intro ballI)
  fix t x
  assume t: "t \<in> set (doc_tables d)" and x: "x \<in> set (children ''triggers'' t)"
  let ?sp = "path_in_effect env (session w)"
  from assms have d: "d = document env ?sp"
    by (rule extractStructure_document)
  from t d obtain sn row where "t = table_doc env ?sp sn row"
    by (auto elim: doc_tables_cases)
  with x obtain j where j: "j \<in> set (triggers_of (catalog_of env) (param env sn)
        (param env (prop_of row ''table_name'')))"
    and xj: "x = trigger_row (catalog_of env) ?sp j"
    by (auto simp: table_doc_triggers sql_triggers_def)
  obtain trg p ns where jt: "j = (trg, p, ns)" by (cases j)
  from j jt have "trg \<in> set (pg_trigger (catalog_of env))"
    by (auto dest: triggers_of_source)
  moreover have "prop_of x ''trigger_name'' = JStr (tgname trg)"
    by (simp add: xj jt trigger_row_def prop_of_def)
  ultimately show "\<exists>trg\<in>set (pg_trigger (catalog_of env)).
       prop_of x ''trigger_name'' = JStr (tgname trg) \<and>
       prop_of x ''level'' = JStr (if bit (tgtype trg) 0 then ''ROW'' else ''STATEMENT'') \<and>
       prop_of x ''timing'' =
         JStr (if bit (tgtype trg) 1 then ''BEFORE''
               else if bit (tgtype trg) 6 then ''INSTEAD OF'' else ''AFTER'') \<and>
       prop_of x ''insert_event'' = JBool (bit (tgtype trg) 2) \<and>
       prop_of x ''delete_event'' = JBool (bit (tgtype trg) 3) \<and>
       prop_of x ''update_event'' = JBool (bit (tgtype trg) 4) \<and>
       prop_of x ''truncate_event'' = JBool (bit (tgtype trg) 5)"
    using trigger_row_decoded [of "catalog_of env" ?sp trg p ns] xj jt
    by (intro bexI [of _ trg]) simp_all
qed


theorem trigger_type_decoding_witness:
  "fst (extractStructure (pg_client shop) bare) = Inr (document shop shop_path) \<and>
   shop_table ''users'' \<in> set (doc_tables (document shop shop_path)) \<and>
   map tgtype (pg_trigger shop_catalog) = [19] \<and>
   map (\<lambda>x. (prop_of x ''level'', prop_of x ''timing'', prop_of x ''insert_event'',
         prop_of x ''delete_event'', prop_of x ''update_event'', prop_of x ''truncate_event''))
     (children ''triggers'' (shop_table ''users'')) =
     [(JStr ''ROW'', JStr ''BEFORE'', JBool False, JBool False, JBool True, JBool False)]"
  using trigger_type_decoding [OF shop_run_path]
  by (simp add: shop_run_path shop_table_in_doc shop_table_children shop_users_triggers
      prop_of_JObj shop_catalog_sel shop_trigger_def)


section \<open>Empty lists\<close>

text \<open>
  Claim C7. In the document of a run, every schema entry has exactly the fields
  \<open>name\<close>, \<open>tables\<close>, \<open>views\<close>, \<open>functions\<close>, the last three bound to arrays, with one
  table or view entry per row of the catalog query; every table entry has exactly the
  fields \<open>name\<close>, \<open>columns\<close>, \<open>constraints\<close>, \<open>foreignKeys\<close>, \<open>triggers\<close>,
  \<open>indexes\<close>, the last five bound to arrays. On a server that rejects no command, each
  of the eight accessors returns the empty array, and does not fail, when its query
  selects no row; and the table query selects no row for a schema without base tables.
\<close>

theorem empty_lists_are_present:
  "(fst (extractStructure (pg_client env) w) = Inr d \<longrightarrow>
      (\<forall>s\<in>set (doc_schemas d).
         keys s = [''name'', ''tables'', ''views'', ''functions''] \<and>
         prop_of s ''tables'' = JArr (children ''tables'' s) \<and>
         prop_of s ''views'' = JArr (children ''views'' s) \<and>
         prop_of s ''functions'' = JArr (children ''functions'' s) \<and>
         length (children ''tables'' s) =
           length (sql_tables (catalog_of env) (param env (prop_of s ''name''))) \<and>
         length (children ''views'' s) =
           length (sql_views (catalog_of env) (param env (prop_of s ''name''))) \<and>
         (\<forall>t\<in>set (children ''tables'' s).
            keys t =
              [''name'', ''columns'', ''constraints'', ''foreignKeys'', ''triggers'', ''indexes''] \<and>
            prop_of t ''columns'' = JArr (children ''columns'' t) \<and>
            prop_of t ''constraints'' = JArr (children ''constraints'' t) \<and>
            prop_of t ''foreignKeys'' = JArr (children ''foreignKeys'' t) \<and>
            prop_of t ''triggers'' = JArr (children ''triggers'' t) \<and>
            prop_of t ''indexes'' = JArr (children ''indexes'' t) \<and>
            children ''columns'' t =
              sql_columns (catalog_of env) (param env (prop_of s ''name''))
                (param env (prop_of t ''name''))))) \<and>
   (accepts env \<and> sql_tables (catalog_of env) (param env sn) = [] \<longrightarrow>
      fst (getTables (pg_client env) sn w0) = Inr (JArr [])) \<and>
   (accepts env \<and> sql_views (catalog_of env) (param env sn) = [] \<longrightarrow>
      fst (getViews (pg_client env) sn w0) = Inr (JArr [])) \<and>
   (accepts env \<and> sql_functions (catalog_of env) (session w0) (param env sn) = [] \<longrightarrow>
      fst (getFunctions (pg_client env) sn w0) = Inr (JArr [])) \<and>
   (accepts env \<and> sql_columns (catalog_of env) (param env sn) (param env tn) = [] \<longrightarrow>
      fst (getColumns (pg_client env) sn tn w0) = Inr (JArr [])) \<and>
   (accepts env \<and> sql_constraints (catalog_of env) (session w0) (param env sn) (param env tn) = [] \<longrightarrow>
      fst (getConstraints (pg_client env) sn tn w0) = Inr (JArr [])) \<and>
   (accepts env \<and> sql_foreign_keys (catalog_of env) (param env sn) (param env tn) = [] \<longrightarrow>
      fst (getForeignKeys (pg_client env) sn tn w0) = Inr (JArr [])) \<and>
   (accepts env \<and> sql_triggers (catalog_of env) (session w0) (param env sn) (param env tn) = [] \<longrightarrow>
      fst (getTriggers (pg_client env) sn tn w0) = Inr (JArr [])) \<and>
   (accepts env \<and> sql_indexes (catalog_of env) (param env sn) (param env tn) = [] \<longrightarrow>
      fst (getIndexes (pg_client env) sn tn w0) = Inr (JArr [])) \<and>
   ((\<forall>t\<in>set (information_schema_tables cat).
       tables_table_schema t \<noteq> n \<or> table_type t \<noteq> ''BASE TABLE'') \<longrightarrow>
      sql_tables cat (Some n) = [])"
proof (intro conjI impI)
  assume run: "fst (extractStructure (pg_client env) w) = Inr d"
  let ?sp = "path_in_effect env (session w)"
  from run have d: "d = document env ?sp"
    by (rule extractStructure_document)
  show "\<forall>s\<in>set (doc_schemas d).
         keys s = [''name'', ''tables'', ''views'', ''functions''] \<and>
         prop_of s ''tables'' = JArr (children ''tables'' s) \<and>
         prop_of s ''views'' = JArr (children ''views'' s) \<and>
         prop_of s ''functions'' = JArr (children ''functions'' s) \<and>
         length (children ''tables'' s) =
           length (sql_tables (catalog_of env) (param env (prop_of s ''name''))) \<and>
         length (children ''views'' s) =
           length (sql_views (catalog_of env) (param env (prop_of s ''name''))) \<and>
         (\<forall>t\<in>set (children ''tables'' s).
            keys t =
              [''name'', ''columns'', ''constraints'', ''foreignKeys'', ''triggers'', ''indexes''] \<and>
            prop_of t ''columns'' = JArr (children ''columns'' t) \<and>
            prop_of t ''constraints'' = JArr (children ''constraints'' t) \<and>
            prop_of t ''foreignKeys'' = JArr (children ''foreignKeys'' t) \<and>
            prop_of t ''triggers'' = JArr (children ''triggers'' t) \<and>
            prop_of t ''indexes'' = JArr (children ''indexes'' t) \<and>
            children ''columns'' t =
              sql_columns (catalog_of env) (param env (prop_of s ''name''))
                (param env (prop_of t ''name'')))"
  proof
    fix s
    assume "s \<in> set (doc_schemas d)"
    with d obtain row where s: "s = schema_doc env ?sp row"
      by (auto elim: doc_schemas_cases)
    note sh = schema_doc_shape [of env ?sp row]
    have tables: "\<forall>t\<in>set (children ''tables'' s).
            keys t =
              [''name'', ''columns'', ''constraints'', ''foreignKeys'', ''triggers'', ''indexes''] \<and>
            prop_of t ''columns'' = JArr (children ''columns'' t) \<and>
            prop_of t ''constraints'' = JArr (children ''constraints'' t) \<and>
            prop_of t ''foreignKeys'' = JArr (children ''foreignKeys'' t) \<and>
            prop_of t ''triggers'' = JArr (children ''triggers'' t) \<and>
            prop_of t ''indexes'' = JArr (children ''indexes'' t) \<and>
            children ''columns'' t =
              sql_columns (catalog_of env) (param env (prop_of s ''name''))
                (param env (prop_of t ''name''))"
    proof
      fix t
      assume "t \<in> set (children ''tables'' s)"
      then obtain trow where t: "t = table_doc env ?sp (prop_of row ''schema_name'') trow"
        by (auto simp: s schema_doc_tables)
      note th = table_doc_shape [of env ?sp "prop_of row ''schema_name''" trow]
      show "keys t =
              [''name'', ''columns'', ''constraints'', ''foreignKeys'', ''triggers'', ''indexes''] \<and>
            prop_of t ''columns'' = JArr (children ''columns'' t) \<and>
            prop_of t ''constraints'' = JArr (children ''constraints'' t) \<and>
            prop_of t ''foreignKeys'' = JArr (children ''foreignKeys'' t) \<and>
            prop_of t ''triggers'' = JArr (children ''triggers'' t) \<and>
            prop_of t ''indexes'' = JArr (children ''indexes'' t) \<and>
            children ''columns'' t =
              sql_columns (catalog_of env) (param env (prop_of s ''name''))
                (param env (prop_of t ''name''))"
        unfolding t s
        using th
        by (simp add: table_doc_columns table_doc_constraints table_doc_foreignKeys
            table_doc_triggers table_doc_indexes schema_doc_name table_doc_name)
    qed
    show "keys s = [''name'', ''tables'', ''views'', ''functions''] \<and>
         prop_of s ''tables'' = JArr (children ''tables'' s) \<and>
         prop_of s ''views'' = JArr (children ''views'' s) \<and>
         prop_of s ''functions'' = JArr (children ''functions'' s) \<and>
         length (children ''tables'' s) =
           length (sql_tables (catalog_of env) (param env (prop_of s ''name''))) \<and>
         length (children ''views'' s) =
           length (sql_views (catalog_of env) (param env (prop_of s ''name''))) \<and>
         (\<forall>t\<in>set (children ''tables'' s).
            keys t =
              [''name'', ''columns'', ''constraints'', ''foreignKeys'', ''triggers'', ''indexes''] \<and>
            prop_of t ''columns'' = JArr (children ''columns'' t) \<and>
            prop_of t ''constraints'' = JArr (children ''constraints'' t) \<and>
            prop_of t ''foreignKeys'' = JArr (children ''foreignKeys'' t) \<and>
            prop_of t ''triggers'' = JArr (children ''triggers'' t) \<and>
            prop_of t ''indexes'' = JArr (children ''indexes'' t) \<and>
            children ''columns'' t =
              sql_columns (catalog_of env) (param env (prop_of s ''name''))
                (param env (prop_of t ''name'')))"
      using tables sh
      by (simp add: s schema_doc_tables schema_doc_views schema_doc_functions schema_doc_name)
  qed
next
  assume "accepts env \<and> sql_tables (catalog_of env) (param env sn) = []"
  then show "fst (getTables (pg_client env) sn w0) = Inr (JArr [])"
    using returns_getTables [of env sn "session w0"] by (simp add: returns_def)
next
  assume "accepts env \<and> sql_views (catalog_of env) (param env sn) = []"
  then show "fst (getViews (pg_client env) sn w0) = Inr (JArr [])"
    using returns_getViews [of env sn "session w0"] by (simp add: returns_def)
next
  assume "accepts env \<and> sql_functions (catalog_of env) (session w0) (param env sn) = []"
  then show "fst (getFunctions (pg_client env) sn w0) = Inr (JArr [])"
    using returns_getFunctions [of env sn "session w0"] by (simp add: returns_def)
next
  assume "accepts env \<and> sql_columns (catalog_of env) (param env sn) (param env tn) = []"
  then show "fst (getColumns (pg_client env) sn tn w0) = Inr (JArr [])"
    using returns_getColumns [of env sn tn "session w0"] by (simp add: returns_def)
next
  assume "accepts env \<and> sql_constraints (catalog_of env) (session w0) (param env sn) (param env tn) = []"
  then show "fst (getConstraints (pg_client env) sn tn w0) = Inr (JArr [])"
    using returns_getConstraints [of env sn tn "session w0"] by (simp add: returns_def)
next
  assume "accepts env \<and> sql_foreign_keys (catalog_of env) (param env sn) (param env tn) = []"
  then show "fst (getForeignKeys (pg_client env) sn tn w0) = Inr (JArr [])"
    using returns_getForeignKeys [of env sn tn "session w0"] by (simp add: returns_def)
next
  assume "accepts env \<and> sql_triggers (catalog_of env) (session w0) (param env sn) (param env tn) = []"
  then show "fst (getTriggers (pg_client env) sn tn w0) = Inr (JArr [])"
    using returns_getTriggers [of env sn tn "session w0"] by (simp add: returns_def)
next
  assume "accepts env \<and> sql_indexes (catalog_of env) (param env sn) (param env tn) = []"
  then show "fst (getIndexes (pg_client env) sn tn w0) = Inr (JArr [])"
    using returns_getIndexes [of env sn tn "session w0"] by (simp add: returns_def)
next
  assume "\<forall>t\<in>set (information_schema_tables cat).
       tables_table_schema t \<noteq> n \<or> table_type t \<noteq> ''BASE TABLE''"
  then show "sql_tables cat (Some n) = []"
    by (auto simp: sql_tables_def filter_empty_conv)
qed

theorem empty_lists_are_present_witness:
  "fst (extractStructure (pg_client shop) bare) = Inr (document shop shop_path) \<and>
   shop_schema ''audit'' \<in> set (doc_schemas (document shop shop_path)) \<and>
   shop_schema ''audit'' =
     JObj [(''name'', JStr ''audit''), (''tables'', JArr []), (''views'', JArr []),
           (''functions'', JArr [])] \<and>
   accepts shop \<and>
   sql_tables (catalog_of shop) (param shop (JStr ''audit'')) = [] \<and>
   fst (getTables (pg_client shop) (JStr ''audit'') bare) = Inr (JArr [])"
  using empty_lists_are_present [of shop bare "document shop shop_path" "JStr ''audit''" bare]
  by (simp add: shop_run_path shop_doc_schemas shop_accepts shop_sel shop_audit_rows
      shop_schema_def schema_doc_def prop_of_JObj)


section \<open>Functions in internal languages\<close>

text \<open>
  Claim C8. Every entry of a schema's \<open>functions\<close> list comes from a row of
  \<^verbatim>\<open>pg_proc\<close> that is not native (its language is not \<^verbatim>\<open>internal\<close> or \<^verbatim>\<open>c\<close>); and the
  rows of the function query are the same when the native functions are taken out of
  \<^verbatim>\<open>pg_proc\<close>: a native function adds nothing to any list.
\<close>

theorem native_functions_are_not_listed:
  "(fst (extractStructure (pg_client env) w) = Inr d \<longrightarrow>
      (\<forall>s\<in>set (doc_schemas d). \<forall>f\<in>set (children ''functions'' s).
         \<exists>p\<in>set (pg_proc (catalog_of env)).
           \<not> native (catalog_of env) p \<and>
           prop_of f ''name'' = JStr (proname p) \<and>
           prop_of f ''body'' = JStr (prosrc p))) \<and>
   sql_functions (cat\<lparr>pg_proc := filter (\<lambda>p. \<not> native cat p) (pg_proc cat)\<rparr>) sp p1 =
     sql_functions cat sp p1"
proof (intro conjI impI ballI)
  fix s f
  assume run: "fst (extractStructure (pg_client env) w) = Inr d"
    and s: "s \<in> set (doc_schemas d)" and f: "f \<in> set (children ''functions'' s)"
  let ?sp = "path_in_effect env (session w)"
  from run have d: "d = document env ?sp"
    by (rule extractStructure_document)
  from s d obtain row where "s = schema_doc env ?sp row"
    by (auto elim: doc_schemas_cases)
  with f obtain j where j: "j \<in> set (functions_of (catalog_of env) (param env (prop_of row ''schema_name'')))"
    and fj: "f = function_object (function_row (catalog_of env) ?sp j)"
    by (auto simp: schema_doc_functions sql_functions_def)
  obtain p t where jp: "j = (p, t)" by (cases j)
  from functions_of_source [OF j] jp
  obtain l where p: "p \<in> set (pg_proc (catalog_of env))"
    and l: "l \<in> set (pg_language (catalog_of env))" "lang_oid l = prolang p"
      "lanname l \<noteq> ''internal''" "lanname l \<noteq> ''c''"
    by auto
  from l have "\<not> native (catalog_of env) p"
    by (auto simp: native_def list_all_iff)
  moreover have "prop_of f ''name'' = JStr (proname p)" "prop_of f ''body'' = JStr (prosrc p)"
    by (simp_all add: fj jp function_object_def function_row_def prop_of_def)
  ultimately show "\<exists>p\<in>set (pg_proc (catalog_of env)).
           \<not> native (catalog_of env) p \<and>
           prop_of f ''name'' = JStr (proname p) \<and>
           prop_of f ''body'' = JStr (prosrc p)"
    using p by blast
next
  show "sql_functions (cat\<lparr>pg_proc := filter (\<lambda>p. \<not> native cat p) (pg_proc cat)\<rparr>) sp p1 =
     sql_functions cat sp p1"
    by (rule sql_functions_native)
qed


theorem native_functions_are_not_listed_witness:
  "fst (extractStructure (pg_client shop) bare) = Inr (document shop shop_path) \<and>
   shop_schema ''public'' \<in> set (doc_schemas (document shop shop_path)) \<and>
   map (\<lambda>f. prop_of f ''name'') (children ''functions'' (shop_schema ''public'')) =
     [JStr ''touch_row''] \<and>
   native shop_catalog (shop_proc ! 1) \<and> proname (shop_proc ! 1) = ''fast_hash''"
  using native_functions_are_not_listed [of shop bare "document shop shop_path" shop_catalog shop_path "Some ''public''"]
  by (simp add: shop_run_path shop_doc_schemas shop_schema_def schema_doc_functions shop_sel
      prop_of_def shop_public_functions function_object_def native_def shop_catalog_sel
      shop_language_def shop_proc_def)

section \<open>Unique indexes\<close>

text \<open>
  Claim C10. For every index entry of the document, \<open>is_unique\<close> is true exactly when
  the text of \<open>index_definition\<close> contains \<^verbatim>\<open>UNIQUE INDEX\<close>; and the rows of the index
  query do not change when the \<open>indisunique\<close> flags of \<^verbatim>\<open>pg_index\<close> are set to anything
  else.
\<close>

theorem is_unique_is_a_text_test:
  "(fst (extractStructure (pg_client env) w) = Inr d \<longrightarrow>
      (\<forall>t\<in>set (doc_tables d). \<forall>ix\<in>set (children ''indexes'' t).
         \<exists>def. prop_of ix ''index_definition'' = JStr def \<and>
           prop_of ix ''is_unique'' = JBool (sublist ''UNIQUE INDEX'' def))) \<and>
   sql_indexes (cat\<lparr>pg_index := map (\<lambda>x. x\<lparr>indisunique := f x\<rparr>) (pg_index cat)\<rparr>) p1 p2 =
     sql_indexes cat p1 p2"
proof (intro conjI impI ballI)
  fix t ix
  assume run: "fst (extractStructure (pg_client env) w) = Inr d"
    and t: "t \<in> set (doc_tables d)" and ix: "ix \<in> set (children ''indexes'' t)"
  from run have d: "d = document env (path_in_effect env (session w))"
    by (rule extractStructure_document)
  from t d obtain sn row where "t = table_doc env (path_in_effect env (session w)) sn row"
    by (auto elim: doc_tables_cases)
  with ix obtain j where "ix = index_row (catalog_of env) j"
    by (auto simp: table_doc_indexes sql_indexes_def)
  then show "\<exists>def. prop_of ix ''index_definition'' = JStr def \<and>
       prop_of ix ''is_unique'' = JBool (sublist ''UNIQUE INDEX'' def)"
    using index_row_is_unique [of "catalog_of env" j] by blast
next
  show "sql_indexes (cat\<lparr>pg_index := map (\<lambda>x. x\<lparr>indisunique := f x\<rparr>) (pg_index cat)\<rparr>) p1 p2 =
     sql_indexes cat p1 p2"
    by (rule sql_indexes_flag)
qed

theorem is_unique_is_a_text_test_witness:
  "fst (extractStructure (pg_client shop) bare) = Inr (document shop shop_path) \<and>
   shop_table ''users'' \<in> set (doc_tables (document shop shop_path)) \<and>
   map (\<lambda>x. (prop_of x ''index_name'', prop_of x ''is_unique''))
     (children ''indexes'' (shop_table ''users'')) =
     [(JStr ''users_label_idx'', JBool True), (JStr ''users_pkey'', JBool True)] \<and>
   map (\<lambda>x. (indexrelid x, indisunique x)) (pg_index shop_catalog) =
     [(16410, True), (16411, True), (16412, False), (16413, True)]"
  using is_unique_is_a_text_test [of shop bare "document shop shop_path"]
  by (simp add: shop_run_path shop_table_in_doc shop_table_children shop_users_indexes
      prop_of_JObj shop_catalog_sel shop_index_def)

end
